theory Spec2Isabelle
  imports Main
begin

section \<open>Calendar dates\<close>

text \<open>
  The server keeps every date as a string \<^verbatim>\<open>YYYY-MM-DD\<close> and hands it to the
  date library (\<^verbatim>\<open>moment(dateStr, 'YYYY-MM-DD')\<close>) whenever it needs the weekday, the
  ISO week or day arithmetic. A well-formed date string is represented here by the
  number of the calendar day it names, counted from 1970-01-01 (day 0, a Thursday):
  two well-formed strings are equal exactly when their day numbers are.
  \<open>daysFromCivil\<close> reads a date written as year, month, day.
\<close>

type_synonym date = int

definition daysFromCivil :: "int \<Rightarrow> int \<Rightarrow> int \<Rightarrow> date" where
  "daysFromCivil y m d =
     (let y' = (if m \<le> 2 then y - 1 else y);
          era = y' div 400;
          yoe = y' - era * 400;
          mp = (if m > 2 then m - 3 else m + 9);
          doy = (153 * mp + 2) div 5 + d - 1;
          doe = yoe * 365 + yoe div 4 - yoe div 100 + doy
      in era * 146097 + doe - 719468)"

definition yearOfDay :: "date \<Rightarrow> int" where
  "yearOfDay n =
     (let z = n + 719468;
          era = z div 146097;
          doe = z - era * 146097;
          yoe = (doe - doe div 1460 + doe div 36524 - doe div 146096) div 365;
          doy = doe - (365 * yoe + yoe div 4 - yoe div 100);
          mp = (5 * doy + 2) div 153
      in yoe + era * 400 + (if mp < 10 then 0 else 1))"

text \<open>\<^verbatim>\<open>d.day()\<close>: 0 is Sunday, 6 is Saturday.\<close>

definition momentDay :: "date \<Rightarrow> int" where
  "momentDay n = (n + 4) mod 7"

text \<open>\<^verbatim>\<open>startOf('isoWeek')\<close> and \<^verbatim>\<open>endOf('isoWeek')\<close>: the Monday and the Sunday of
  the week of the date (the day that holds the last instant of the week).\<close>

definition startOfIsoWeek :: "date \<Rightarrow> date" where
  "startOfIsoWeek n = n - (n + 3) mod 7"

definition endOfIsoWeek :: "date \<Rightarrow> date" where
  "endOfIsoWeek n = startOfIsoWeek n + 6"

text \<open>\<^verbatim>\<open>d.isoWeek()\<close> and \<^verbatim>\<open>d.isoWeekYear()\<close> (ISO 8601): a week belongs to the year
  of its Thursday, and weeks are numbered from 1 within that year.\<close>

definition isoWeekYear :: "date \<Rightarrow> int" where
  "isoWeekYear n = yearOfDay (startOfIsoWeek n + 3)"

definition isoWeek :: "date \<Rightarrow> int" where
  "isoWeek n =
     (let thu = startOfIsoWeek n + 3
      in (thu - daysFromCivil (yearOfDay thu) 1 1) div 7 + 1)"

text \<open>\<^verbatim>\<open>d.isoWeek(w)\<close>, the setter: the library moves the date by whole weeks,
  \<^verbatim>\<open>this.add((w - this.isoWeek()) * 7, 'd')\<close>.\<close>

definition setIsoWeek :: "date \<Rightarrow> int \<Rightarrow> date" where
  "setIsoWeek n w = n + (w - isoWeek n) * 7"

text \<open>\<^verbatim>\<open>format('ddd')\<close>.\<close>

definition getDayName :: "date \<Rightarrow> string" where
  "getDayName n =
     [''Sun'', ''Mon'', ''Tue'', ''Wed'', ''Thu'', ''Fri'', ''Sat''] ! nat (momentDay n)"

section \<open>Data model\<close>

type_synonym userId = string
type_synonym seatId = nat

datatype seat_type = Designated | Floater

record seat_def =
  sd_seatId :: seatId
  sd_type :: seat_type
  sd_assignedTo :: "userId option"

record user =
  userId :: userId
  batch :: string
  designatedSeatId :: "seatId option"
  floaterLeaveCount :: nat
  isAdmin :: bool

record booking =
  b_date :: date
  b_seatId :: seatId
  b_userId :: userId
  b_bookedAt :: int

record lock =
  l_date :: date
  l_seatId :: seatId
  l_userId :: userId
  l_lockExpiry :: int

record leave =
  lv_userId :: userId
  lv_date :: date
  lv_seatId :: "seatId option"

record schedule =
  week1 :: "string list"
  week2 :: "string list"

text \<open>The module's global variables, as one state.\<close>

record state =
  batchSchedule :: "string \<rightharpoonup> schedule"
  holidays :: "date set"
  users :: "userId \<rightharpoonup> user"
  seatDefinitions :: "seat_def list"
  bookings :: "booking list"
  locks :: "lock list"
  leaves :: "leave list"

text \<open>
  The clock reads of one request. The policy check reads the local date and hour
  (\<^verbatim>\<open>moment()\<close>); \<^verbatim>\<open>clearExpiredLocksForDate\<close> and the handler body each call
  \<^verbatim>\<open>nowTs()\<close>; the commit stamps \<^verbatim>\<open>new Date()\<close>.
\<close>

record clock =
  today :: date
  hour :: int
  purgeTs :: int
  checkTs :: int
  commitTs :: int

datatype error =
    Unauthorized
  | SeatIdsEmpty
  | SeatNotExist seatId
  | TooManySeats
  | BookingWeekendOrHoliday
  | LockingWeekendOrHoliday
  | OnLeave
  | AdvanceBookingClosed
  | NotAssignedToYou seatId
  | NotBatchDay
  | AlreadyBooked seatId
  | LockedByOther seatId
  | LockExpired seatId
  | NotOwnBooking seatId
  | BadBatch
  | ActiveBooking

definition LOCK_DURATION_MS :: int where
  "LOCK_DURATION_MS = 2 * 60 * 1000"

definition MAX_SEATS_PER_BOOKING :: nat where
  "MAX_SEATS_PER_BOOKING = 5"

definition FLOATER_SEAT_COUNT :: nat where
  "FLOATER_SEAT_COUNT = 10"

definition DEFAULT_BATCH_SCHEDULE :: "string \<rightharpoonup> schedule" where
  "DEFAULT_BATCH_SCHEDULE =
     [''batch1'' \<mapsto> \<lparr>week1 = [''Mon'', ''Tue'', ''Wed''], week2 = [''Thu'', ''Fri'']\<rparr>,
      ''batch2'' \<mapsto> \<lparr>week1 = [''Thu'', ''Fri''], week2 = [''Mon'', ''Tue'', ''Wed'']\<rparr>]"

text \<open>\<^verbatim>\<open>initSeatDefinitions\<close>: seats 1 to 50, the last ten of them floaters.\<close>

definition initSeatDefinitions :: "seat_def list" where
  "initSeatDefinitions =
     (let totalSeats = 50; floaterStart = totalSeats - FLOATER_SEAT_COUNT + 1
      in map (\<lambda>sid. \<lparr>sd_seatId = sid,
                      sd_type = (if sid \<ge> floaterStart then Floater else Designated),
                      sd_assignedTo = None\<rparr>) [1 ..< Suc totalSeats])"

section \<open>Utilities\<close>

definition getSeatDefinition :: "state \<Rightarrow> seatId \<Rightarrow> seat_def option" where
  "getSeatDefinition st sid = find (\<lambda>s. sd_seatId s = sid) (seatDefinitions st)"

text \<open>
  \<^verbatim>\<open>validateSeatIds\<close>. The test \<^verbatim>\<open>if (invalid)\<close> is on the id that \<^verbatim>\<open>find\<close>
  returned, so an unknown id 0 is not reported.
\<close>

definition validateSeatIds :: "state \<Rightarrow> seatId list \<Rightarrow> error option" where
  "validateSeatIds st seatIds =
     (if seatIds = [] then Some SeatIdsEmpty
      else case find (\<lambda>sid. getSeatDefinition st sid = None) seatIds of
             None \<Rightarrow> None
           | Some invalid \<Rightarrow> if invalid \<noteq> 0 then Some (SeatNotExist invalid) else None)"

definition isWeekend :: "date \<Rightarrow> bool" where
  "isWeekend d = (let day = momentDay d in day = 0 \<or> day = 6)"

definition isHoliday :: "state \<Rightarrow> date \<Rightarrow> bool" where
  "isHoliday st d = (d \<in> holidays st)"

definition getWeekType :: "date \<Rightarrow> string" where
  "getWeekType d = (if isoWeek d mod 2 = 0 then ''week2'' else ''week1'')"

definition isBatchScheduledOnDate :: "state \<Rightarrow> string \<Rightarrow> date \<Rightarrow> bool" where
  "isBatchScheduledOnDate st b d =
     (let weekType = getWeekType d; dayName = getDayName d
      in case batchSchedule st b of
           None \<Rightarrow> False
         | Some sched \<Rightarrow>
             (let allowedDays = (if weekType = ''week1'' then week1 sched else week2 sched)
              in dayName \<in> set allowedDays))"

definition getCycleBounds :: "date \<Rightarrow> date \<times> date" where
  "getCycleBounds d =
     (let w = isoWeek d;
          isWeek1 = (w mod 2 = 1);
          week1Num = (if isWeek1 then w else w - 1);
          week2Num = week1Num + 1;
          start = startOfIsoWeek (setIsoWeek d week1Num);
          end = endOfIsoWeek (setIsoWeek d week2Num)
      in (start, end))"

text \<open>\<^verbatim>\<open>getAttendanceCountForCycle\<close>: the size of the set of booking dates of
  the user that lie in the cycle, both ends included.\<close>

definition getAttendanceCountForCycle :: "state \<Rightarrow> userId \<Rightarrow> date \<Rightarrow> nat" where
  "getAttendanceCountForCycle st uid d =
     (let (start, end) = getCycleBounds d
      in length (remdups (map b_date
           (filter (\<lambda>b. start \<le> b_date b \<and> b_date b \<le> end)
              (filter (\<lambda>b. b_userId b = uid) (bookings st))))))"

definition clearExpiredLocksForDate :: "int \<Rightarrow> date \<Rightarrow> state \<Rightarrow> state" where
  "clearExpiredLocksForDate now d st =
     st\<lparr>locks := filter (\<lambda>l. if l_date l \<noteq> d then True else l_lockExpiry l > now) (locks st)\<rparr>"

definition isUserOnLeave :: "state \<Rightarrow> userId \<Rightarrow> date \<Rightarrow> bool" where
  "isUserOnLeave st uid d = list_ex (\<lambda>l. lv_userId l = uid \<and> lv_date l = d) (leaves st)"

section \<open>Seat state for a date\<close>

datatype seat_status = Available | Locked | Occupied

record seat_view =
  sv_seatId :: seatId
  sv_row :: nat
  sv_number :: nat
  sv_status :: seat_status
  sv_bookedBy :: "userId option"
  sv_lockedBy :: "userId option"
  sv_lockExpiry :: "int option"
  sv_type :: seat_type
  sv_assignedTo :: "userId option"

text \<open>The body of the \<^verbatim>\<open>map\<close> in \<^verbatim>\<open>getSeatStateForDate\<close>, for the seat at
  position \<open>index\<close> of the catalog; \<open>sv_row\<close> is the character code of the row letter.\<close>

definition seatView :: "state \<Rightarrow> date \<Rightarrow> int \<Rightarrow> nat \<Rightarrow> seat_def \<Rightarrow> seat_view" where
  "seatView st d now index def =
     (let booking = find (\<lambda>b. b_date b = d \<and> b_seatId b = sd_seatId def) (bookings st);
          lock = find (\<lambda>l. l_date l = d \<and> l_seatId l = sd_seatId def \<and> l_lockExpiry l > now)
                   (locks st);
          rowIndex = index div 10
      in \<lparr>sv_seatId = sd_seatId def,
          sv_row = 65 + rowIndex,
          sv_number = index mod 10 + 1,
          sv_status = (if booking \<noteq> None then Occupied
                       else if lock \<noteq> None then Locked else Available),
          sv_bookedBy = (case booking of Some b \<Rightarrow> Some (b_userId b) | None \<Rightarrow> None),
          sv_lockedBy = (case booking of Some b \<Rightarrow> None
                         | None \<Rightarrow> (case lock of Some l \<Rightarrow> Some (l_userId l) | None \<Rightarrow> None)),
          sv_lockExpiry = (case booking of Some b \<Rightarrow> None
                           | None \<Rightarrow> (case lock of Some l \<Rightarrow> Some (l_lockExpiry l)
                                       | None \<Rightarrow> None)),
          sv_type = sd_type def,
          sv_assignedTo = sd_assignedTo def\<rparr>)"

definition getSeatStateForDate :: "clock \<Rightarrow> date \<Rightarrow> state \<Rightarrow> seat_view list \<times> state" where
  "getSeatStateForDate clk d st =
     (let st1 = clearExpiredLocksForDate (purgeTs clk) d st;
          now = checkTs clk
      in (map (\<lambda>(index, def). seatView st1 d now index def)
            (enumerate 0 (seatDefinitions st1)), st1))"

datatype warning =
    BookingDisabled
  | FloaterOnlyDay
  | AttendanceShort nat nat
  | LeaveMarked

record policy_summary =
  ps_isWeekendOrHoliday :: bool
  ps_isBatchDay :: bool
  ps_canUseDesignatedToday :: bool
  ps_isFloaterOnlyDay :: bool
  ps_attendanceCount :: nat
  ps_attendanceRequired :: nat
  ps_onLeave :: bool
  ps_warnings :: "warning list"

definition buildPolicySummary :: "state \<Rightarrow> user \<Rightarrow> date \<Rightarrow> policy_summary" where
  "buildPolicySummary st u d =
     (let weekend = isWeekend d;
          holiday = isHoliday st d;
          isWeekendOrHoliday = (weekend \<or> holiday);
          isBatchDay = isBatchScheduledOnDate st (batch u) d;
          isFloaterOnlyDay = (\<not> isBatchDay \<and> \<not> isWeekendOrHoliday);
          attendanceCount = getAttendanceCountForCycle st (userId u) d;
          attendanceRequired = 5;
          onLeave = isUserOnLeave st (userId u) d
      in \<lparr>ps_isWeekendOrHoliday = isWeekendOrHoliday,
          ps_isBatchDay = isBatchDay,
          ps_canUseDesignatedToday = isBatchDay,
          ps_isFloaterOnlyDay = isFloaterOnlyDay,
          ps_attendanceCount = attendanceCount,
          ps_attendanceRequired = attendanceRequired,
          ps_onLeave = onLeave,
          ps_warnings =
            (if isWeekendOrHoliday then [BookingDisabled]
             else if isFloaterOnlyDay then [FloaterOnlyDay] else []) @
            (if attendanceCount < attendanceRequired
             then [AttendanceShort attendanceCount attendanceRequired] else []) @
            (if onLeave then [LeaveMarked] else [])\<rparr>)"

section \<open>Policy validation\<close>

text \<open>Step 5 of \<^verbatim>\<open>validateBookingPolicy\<close>, the loop over the requested seats.
  \<^verbatim>\<open>if (!ownerId)\<close> holds for \<^verbatim>\<open>null\<close> and for the empty string.\<close>

fun seatOwnershipLoop :: "state \<Rightarrow> user \<Rightarrow> date \<Rightarrow> bool \<Rightarrow> seatId list \<Rightarrow> error option" where
  "seatOwnershipLoop st u d isBatchDay [] = None"
| "seatOwnershipLoop st u d isBatchDay (sid # rest) =
     (case getSeatDefinition st sid of
        None \<Rightarrow> Some (SeatNotExist sid)
      | Some def \<Rightarrow>
          if sd_type def = Designated then
            (case sd_assignedTo def of
               None \<Rightarrow> seatOwnershipLoop st u d isBatchDay rest
             | Some ownerId \<Rightarrow>
                 if ownerId = [] then seatOwnershipLoop st u d isBatchDay rest
                 else if isUserOnLeave st ownerId d then seatOwnershipLoop st u d isBatchDay rest
                 else if ownerId \<noteq> userId u then Some (NotAssignedToYou sid)
                 else if \<not> isBatchDay then Some NotBatchDay
                 else seatOwnershipLoop st u d isBatchDay rest)
          else seatOwnershipLoop st u d isBatchDay rest)"

definition validateBookingPolicy :: "clock \<Rightarrow> state \<Rightarrow> user \<Rightarrow> date \<Rightarrow> seatId list \<Rightarrow> error option" where
  "validateBookingPolicy clk st u d seatIds =
     (if isWeekend d \<or> isHoliday st d then Some BookingWeekendOrHoliday
      else if isUserOnLeave st (userId u) d then Some OnLeave
      else let isBatchDay = isBatchScheduledOnDate st (batch u) d
           in if d = today clk + 1 \<and> hour clk < 15 then Some AdvanceBookingClosed
              else seatOwnershipLoop st u d isBatchDay seatIds)"

section \<open>Request handlers\<close>

text \<open>
  Every handler below runs behind \<^verbatim>\<open>authMiddleware\<close>, which resolves the session
  token to a key of \<^verbatim>\<open>users\<close> and the key to the user object; a caller that
  resolves to no user is answered 401. A handler takes the resolved key \<open>uid\<close>, the
  fields of the request body, and the state, and returns the response and the state
  after the request. The date of a request is a well-formed date, so the
  \<^verbatim>\<open>if (!date)\<close> guard of the handlers never fires.
\<close>

subsection \<open>Leave\<close>

definition markLeave :: "userId \<Rightarrow> date \<Rightarrow> state \<Rightarrow> (error + unit) \<times> state" where
  "markLeave uid d st =
     (case users st uid of
        None \<Rightarrow> (Inl Unauthorized, st)
      | Some u \<Rightarrow>
          (let existing = find (\<lambda>l. lv_userId l = userId u \<and> lv_date l = d) (leaves st);
               truthySeat = (case designatedSeatId u of None \<Rightarrow> None
                             | Some s \<Rightarrow> if s \<noteq> 0 then Some s else None);
               st1 = (if existing = None
                      then st\<lparr>leaves := leaves st @
                                [\<lparr>lv_userId = userId u, lv_date = d, lv_seatId = truthySeat\<rparr>],
                              users := (if truthySeat \<noteq> None
                                        then (users st)(uid \<mapsto>
                                               u\<lparr>floaterLeaveCount := floaterLeaveCount u + 1\<rparr>)
                                        else users st)\<rparr>
                      else st);
               st2 = st1\<lparr>bookings :=
                        filter (\<lambda>b. \<not> (b_userId b = userId u \<and> b_date b = d)) (bookings st1)\<rparr>
           in (Inr (), st2)))"

subsection \<open>Seat locking\<close>

text \<open>The availability loop of \<^verbatim>\<open>/api/lock\<close>.\<close>

fun lockAvailabilityLoop :: "state \<Rightarrow> user \<Rightarrow> date \<Rightarrow> int \<Rightarrow> seatId list \<Rightarrow> error option" where
  "lockAvailabilityLoop st u d now [] = None"
| "lockAvailabilityLoop st u d now (sid # rest) =
     (if find (\<lambda>b. b_date b = d \<and> b_seatId b = sid) (bookings st) \<noteq> None
      then Some (AlreadyBooked sid)
      else case find (\<lambda>l. l_date l = d \<and> l_seatId l = sid) (locks st) of
             None \<Rightarrow> lockAvailabilityLoop st u d now rest
           | Some existingLock \<Rightarrow>
               if l_userId existingLock \<noteq> userId u \<and> l_lockExpiry existingLock > now
               then Some (LockedByOther sid)
               else lockAvailabilityLoop st u d now rest)"

fun findIndex :: "('a \<Rightarrow> bool) \<Rightarrow> 'a list \<Rightarrow> nat option" where
  "findIndex P [] = None"
| "findIndex P (x # xs) = (if P x then Some 0 else map_option Suc (findIndex P xs))"

text \<open>The body of the \<^verbatim>\<open>forEach\<close> of \<^verbatim>\<open>/api/lock\<close>: replace the caller's lock
  on the seat, or push a new one.\<close>

definition putLock :: "user \<Rightarrow> date \<Rightarrow> int \<Rightarrow> lock list \<Rightarrow> seatId \<Rightarrow> lock list" where
  "putLock u d lockExpiry ls sid =
     (let newLock = \<lparr>l_date = d, l_seatId = sid, l_userId = userId u, l_lockExpiry = lockExpiry\<rparr>
      in case findIndex (\<lambda>l. l_date l = d \<and> l_seatId l = sid \<and> l_userId l = userId u) ls of
           Some i \<Rightarrow> ls[i := newLock]
         | None \<Rightarrow> ls @ [newLock])"

definition acquireLocks :: "clock \<Rightarrow> userId \<Rightarrow> date \<Rightarrow> seatId list \<Rightarrow> state \<Rightarrow> (error + unit) \<times> state" where
  "acquireLocks clk uid d seatIds st =
     (case users st uid of
        None \<Rightarrow> (Inl Unauthorized, st)
      | Some u \<Rightarrow>
          (case validateSeatIds st seatIds of
             Some e \<Rightarrow> (Inl e, st)
           | None \<Rightarrow>
               if isWeekend d \<or> isHoliday st d then (Inl LockingWeekendOrHoliday, st)
               else (case validateBookingPolicy clk st u d seatIds of
                       Some e \<Rightarrow> (Inl e, st)
                     | None \<Rightarrow>
                         (let st1 = clearExpiredLocksForDate (purgeTs clk) d st;
                              now = checkTs clk;
                              lockExpiry = now + LOCK_DURATION_MS
                          in (case lockAvailabilityLoop st1 u d now seatIds of
                                Some e \<Rightarrow> (Inl e, st1)
                              | None \<Rightarrow>
                                  (Inr (), st1\<lparr>locks :=
                                     foldl (putLock u d lockExpiry) (locks st1) seatIds\<rparr>))))))"

definition releaseLocks :: "userId \<Rightarrow> date \<Rightarrow> seatId list \<Rightarrow> state \<Rightarrow> (error + unit) \<times> state" where
  "releaseLocks uid d seatIds st =
     (case users st uid of
        None \<Rightarrow> (Inl Unauthorized, st)
      | Some u \<Rightarrow>
          (case validateSeatIds st seatIds of
             Some e \<Rightarrow> (Inl e, st)
           | None \<Rightarrow>
               (Inr (), st\<lparr>locks :=
                  filter (\<lambda>l. \<not> (l_date l = d \<and> l_seatId l \<in> set seatIds \<and> l_userId l = userId u))
                    (locks st)\<rparr>)))"

subsection \<open>Booking\<close>

text \<open>The availability loop of \<^verbatim>\<open>/api/book\<close>.\<close>

fun bookAvailabilityLoop :: "state \<Rightarrow> user \<Rightarrow> date \<Rightarrow> int \<Rightarrow> seatId list \<Rightarrow> error option" where
  "bookAvailabilityLoop st u d now [] = None"
| "bookAvailabilityLoop st u d now (sid # rest) =
     (if find (\<lambda>b. b_date b = d \<and> b_seatId b = sid) (bookings st) \<noteq> None
      then Some (AlreadyBooked sid)
      else case find (\<lambda>l. l_date l = d \<and> l_seatId l = sid) (locks st) of
             None \<Rightarrow> bookAvailabilityLoop st u d now rest
           | Some lock \<Rightarrow>
               if l_userId lock \<noteq> userId u \<and> l_lockExpiry lock > now
               then Some (LockedByOther sid)
               else if l_lockExpiry lock \<le> now then Some (LockExpired sid)
               else bookAvailabilityLoop st u d now rest)"

text \<open>The body of the \<^verbatim>\<open>forEach\<close> of \<^verbatim>\<open>/api/book\<close>: push the booking, drop the
  locks on the seat for the date.\<close>

definition commitSeat :: "user \<Rightarrow> date \<Rightarrow> int \<Rightarrow> state \<Rightarrow> seatId \<Rightarrow> state" where
  "commitSeat u d bookedAt st sid =
     st\<lparr>bookings := bookings st @
          [\<lparr>b_date = d, b_seatId = sid, b_userId = userId u, b_bookedAt = bookedAt\<rparr>],
        locks := filter (\<lambda>l. \<not> (l_date l = d \<and> l_seatId l = sid)) (locks st)\<rparr>"

definition confirmBooking :: "clock \<Rightarrow> userId \<Rightarrow> date \<Rightarrow> seatId list \<Rightarrow> state \<Rightarrow> (error + seatId list) \<times> state" where
  "confirmBooking clk uid d seatIds st =
     (case users st uid of
        None \<Rightarrow> (Inl Unauthorized, st)
      | Some u \<Rightarrow>
          (case validateSeatIds st seatIds of
             Some e \<Rightarrow> (Inl e, st)
           | None \<Rightarrow>
               if length seatIds > MAX_SEATS_PER_BOOKING then (Inl TooManySeats, st)
               else (case validateBookingPolicy clk st u d seatIds of
                       Some e \<Rightarrow> (Inl e, st)
                     | None \<Rightarrow>
                         (let st1 = clearExpiredLocksForDate (purgeTs clk) d st;
                              now = checkTs clk
                          in (case bookAvailabilityLoop st1 u d now seatIds of
                                Some e \<Rightarrow> (Inl e, st1)
                              | None \<Rightarrow>
                                  (Inr seatIds,
                                   foldl (commitSeat u d (commitTs clk)) st1 seatIds))))))"

subsection \<open>Cancellation\<close>

text \<open>\<^verbatim>\<open>if (invalidSeat)\<close> tests the seat id that \<^verbatim>\<open>find\<close> returned.\<close>

definition cancelBooking :: "userId \<Rightarrow> date \<Rightarrow> seatId list \<Rightarrow> state \<Rightarrow> (error + unit) \<times> state" where
  "cancelBooking uid d seatIds st =
     (case users st uid of
        None \<Rightarrow> (Inl Unauthorized, st)
      | Some u \<Rightarrow>
          (case validateSeatIds st seatIds of
             Some e \<Rightarrow> (Inl e, st)
           | None \<Rightarrow>
               (let invalidSeat =
                      find (\<lambda>sid. find (\<lambda>b. b_date b = d \<and> b_seatId b = sid \<and> b_userId b = userId u)
                                     (bookings st) = None) seatIds;
                    cancelled =
                      st\<lparr>bookings :=
                           filter (\<lambda>b. \<not> (b_date b = d \<and> b_seatId b \<in> set seatIds \<and>
                                          b_userId b = userId u)) (bookings st),
                         locks :=
                           filter (\<lambda>l. \<not> (l_date l = d \<and> l_seatId l \<in> set seatIds \<and>
                                          l_userId l = userId u)) (locks st)\<rparr>
                in case invalidSeat of
                     None \<Rightarrow> (Inr (), cancelled)
                   | Some sid \<Rightarrow>
                       if sid \<noteq> 0 then (Inl (NotOwnBooking sid), st) else (Inr (), cancelled))))"

subsection \<open>Batch switching\<close>

definition updateBatch :: "clock \<Rightarrow> userId \<Rightarrow> string \<Rightarrow> date option \<Rightarrow> state \<Rightarrow> (error + user) \<times> state" where
  "updateBatch clk uid newBatch dateOpt st =
     (case users st uid of
        None \<Rightarrow> (Inl Unauthorized, st)
      | Some u \<Rightarrow>
          if newBatch \<notin> set [''batch1'', ''batch2''] then (Inl BadBatch, st)
          else (let targetDate = (case dateOpt of Some d \<Rightarrow> d | None \<Rightarrow> today clk);
                    activeBookingToday =
                      list_ex (\<lambda>b. b_userId b = userId u \<and> b_date b = targetDate) (bookings st)
                in if activeBookingToday then (Inl ActiveBooking, st)
                   else (Inr (u\<lparr>batch := newBatch\<rparr>),
                         st\<lparr>users := (users st)(uid \<mapsto> u\<lparr>batch := newBatch\<rparr>)\<rparr>)))"

section \<open>Example states\<close>

text \<open>The state of the module when the server starts.\<close>

definition initialState :: state where
  "initialState =
     \<lparr>batchSchedule = DEFAULT_BATCH_SCHEDULE, holidays = {}, users = Map.empty,
      seatDefinitions = initSeatDefinitions, bookings = [], locks = [], leaves = []\<rparr>"

text \<open>Two users as \<^verbatim>\<open>/api/signup\<close> creates them: the first asks for seat 1 as her
  designated seat, the second for none.\<close>

definition alice :: user where
  "alice = \<lparr>userId = ''alice1'', batch = ''batch1'', designatedSeatId = Some 1,
            floaterLeaveCount = 0, isAdmin = False\<rparr>"

definition bob :: user where
  "bob = \<lparr>userId = ''bob2'', batch = ''batch2'', designatedSeatId = None,
          floaterLeaveCount = 0, isAdmin = False\<rparr>"

definition officeState :: state where
  "officeState =
     initialState\<lparr>users := [''alice1'' \<mapsto> alice, ''bob2'' \<mapsto> bob],
                  seatDefinitions := initSeatDefinitions
                    [0 := \<lparr>sd_seatId = 1, sd_type = Designated, sd_assignedTo = Some ''alice1''\<rparr>]\<rparr>"

text \<open>Monday 2026-11-02 (ISO week 45) and the days around it.\<close>

definition monday :: date where
  "monday = daysFromCivil 2026 11 2"

text \<open>A request on Thursday 2026-10-29 at 10:00, the clock not moving during it.\<close>

definition thursdayMorning :: clock where
  "thursdayMorning = \<lparr>today = monday - 4, hour = 10, purgeTs = 1000000, checkTs = 1000000,
                       commitTs = 1000000\<rparr>"

text \<open>Requests on Sunday 2026-11-01, the day before \<open>monday\<close>, at 10:00 and at 15:00.\<close>

definition sundayMorning :: clock where
  "sundayMorning = thursdayMorning\<lparr>today := monday - 1\<rparr>"

definition sundayAfternoon :: clock where
  "sundayAfternoon = sundayMorning\<lparr>hour := 15\<rparr>"

text \<open>\<open>officeState\<close> after the second user has booked floater seat 41 for \<open>monday\<close>.\<close>

definition bookedState :: state where
  "bookedState =
     officeState\<lparr>bookings :=
       [\<lparr>b_date = monday, b_seatId = 41, b_userId = ''bob2'', b_bookedAt = 900000\<rparr>]\<rparr>"

text \<open>\<open>officeState\<close> after the first user has booked her designated seat for \<open>monday\<close>.\<close>

definition aliceBookedState :: state where
  "aliceBookedState =
     officeState\<lparr>bookings :=
       [\<lparr>b_date = monday, b_seatId = 1, b_userId = ''alice1'', b_bookedAt = 900000\<rparr>]\<rparr>"

section \<open>Notions of the specification\<close>

text \<open>The Leave records of a user for a date.\<close>

definition leaveRecords :: "state \<Rightarrow> userId \<Rightarrow> date \<Rightarrow> leave list" where
  "leaveRecords st uid d = filter (\<lambda>l. lv_userId l = uid \<and> lv_date l = d) (leaves st)"

text \<open>The user holds a designated seat, as \<^verbatim>\<open>if (user.designatedSeatId)\<close> tests it.\<close>

definition holdsDesignatedSeat :: "user \<Rightarrow> bool" where
  "holdsDesignatedSeat u = (designatedSeatId u \<noteq> None \<and> designatedSeatId u \<noteq> Some 0)"

text \<open>The user has a booking of the seat for the date.\<close>

definition ownsBooking :: "state \<Rightarrow> user \<Rightarrow> date \<Rightarrow> seatId \<Rightarrow> bool" where
  "ownsBooking st u d sid =
     list_ex (\<lambda>b. b_date b = d \<and> b_seatId b = sid \<and> b_userId b = userId u) (bookings st)"

text \<open>The advance-booking window for the date is open: the date is not tomorrow, or it is
  15:00 or later.\<close>

definition advanceOpen :: "clock \<Rightarrow> date \<Rightarrow> bool" where
  "advanceOpen clk d = (\<not> (d = today clk + 1 \<and> hour clk < 15))"

text \<open>\<open>officeState\<close> after the first user has marked leave for \<open>monday\<close>.\<close>

definition aliceOnLeaveState :: state where
  "aliceOnLeaveState =
     officeState\<lparr>leaves := [\<lparr>lv_userId = ''alice1'', lv_date = monday, lv_seatId = Some 1\<rparr>],
                 users := [''alice1'' \<mapsto> alice\<lparr>floaterLeaveCount := 1\<rparr>, ''bob2'' \<mapsto> bob]\<rparr>"

text \<open>Two dates lie in the same pair of an odd ISO week and the even week after it:
  they have the same ISO week-year, and their week numbers are \<open>2k - 1\<close> or \<open>2k\<close> for
  the same \<open>k\<close>.\<close>

definition sameWeekPair :: "date \<Rightarrow> date \<Rightarrow> bool" where
  "sameWeekPair d1 d2 =
     (isoWeekYear d1 = isoWeekYear d2 \<and> (isoWeek d1 + 1) div 2 = (isoWeek d2 + 1) div 2)"

text \<open>The number of the week of a date, counted from the week of day 0.\<close>

definition weekIndex :: "date \<Rightarrow> int" where
  "weekIndex n = (n + 3) div 7"

text \<open>The state without the locks that \<open>gone\<close> selects.\<close>

definition withoutLocks :: "(lock \<Rightarrow> bool) \<Rightarrow> state \<Rightarrow> state" where
  "withoutLocks gone st = st\<lparr>locks := filter (\<lambda>l. \<not> gone l) (locks st)\<rparr>"

text \<open>\<open>bookedState\<close> with two locks of the first user for \<open>monday\<close>: one on seat 42
  that ran out at time 500000, one on seat 43 that runs until time 2000000.\<close>

definition staleLockState :: state where
  "staleLockState =
     bookedState\<lparr>locks :=
       [\<lparr>l_date = monday, l_seatId = 42, l_userId = ''alice1'', l_lockExpiry = 500000\<rparr>,
        \<lparr>l_date = monday, l_seatId = 43, l_userId = ''alice1'', l_lockExpiry = 2000000\<rparr>]\<rparr>"

text \<open>The Lock invariant of the data model: among the locks that have not expired at
  time \<open>now\<close> there is at most one for each date and seat.\<close>

definition oneLiveLockPerSeat :: "int \<Rightarrow> state \<Rightarrow> bool" where
  "oneLiveLockPerSeat now st =
     distinct (map (\<lambda>l. (l_date l, l_seatId l)) (filter (\<lambda>l. now < l_lockExpiry l) (locks st)))"

text \<open>A request during which the clock moves on by one millisecond between the purge
  and the availability check, and a state in which the lock of the first user on seat
  42 runs out at that very millisecond.\<close>

definition tickingClock :: clock where
  "tickingClock = thursdayMorning\<lparr>checkTs := 1000001\<rparr>"

definition raceLockState :: state where
  "raceLockState =
     bookedState\<lparr>locks :=
       [\<lparr>l_date = monday, l_seatId = 42, l_userId = ''alice1'', l_lockExpiry = 1000001\<rparr>]\<rparr>"

section \<open>Properties\<close>

subsection \<open>Batch switching\<close>

text \<open>
  Claim C10. A user cannot switch batch while holding a booking for the target date
  (the date of the request, today when the request names none): the request is then
  answered with an error and the state, with the user's batch, is left as it was.
  Otherwise the batch of the user is set to the requested value and nothing else
  changes. The requested batch is one of the two the handler accepts.
\<close>

theorem updateBatch_guard:
  assumes "users st uid = Some u"
    and "newBatch = ''batch1'' \<or> newBatch = ''batch2''"
  shows "updateBatch clk uid newBatch dateOpt st =
     (if (\<exists>b \<in> set (bookings st). b_userId b = userId u \<and>
              b_date b = (case dateOpt of Some d \<Rightarrow> d | None \<Rightarrow> today clk))
      then (Inl ActiveBooking, st)
      else (Inr (u\<lparr>batch := newBatch\<rparr>),
            st\<lparr>users := (users st)(uid \<mapsto> u\<lparr>batch := newBatch\<rparr>)\<rparr>))"
  using assms by (auto simp: updateBatch_def list_ex_iff Let_def)

theorem updateBatch_guard_witness:
  "users bookedState ''bob2'' = Some bob \<and>
   updateBatch thursdayMorning ''bob2'' ''batch1'' (Some monday) bookedState
     = (Inl ActiveBooking, bookedState) \<and>
   updateBatch thursdayMorning ''bob2'' ''batch1'' None bookedState
     = (Inr (bob\<lparr>batch := ''batch1''\<rparr>),
        bookedState\<lparr>users := (users bookedState)(''bob2'' \<mapsto> bob\<lparr>batch := ''batch1''\<rparr>)\<rparr>)"
proof -
  have u: "users bookedState ''bob2'' = Some bob"
    by (simp add: bookedState_def officeState_def)
  have m: "monday - 4 \<noteq> monday" by simp
  show ?thesis
    using u m updateBatch_guard [OF u, of "''batch1''" thursdayMorning "Some monday"]
      updateBatch_guard [OF u, of "''batch1''" thursdayMorning None]
    by (simp add: bookedState_def officeState_def thursdayMorning_def bob_def)
qed

subsection \<open>The advance-booking rule on the lock path\<close>

text \<open>
  Claim C3 says that a lock request for tomorrow made before 15:00 is not rejected on
  account of the advance-booking rule. The handler of \<^verbatim>\<open>/api/lock\<close> announces
  "without the 3 PM rule" and then calls \<^verbatim>\<open>validateBookingPolicy\<close>, which holds
  the rule: on Sunday at 10:00 a lock on floater seat 41 for Monday is refused with
  the advance-booking message, and the same request at 15:00 is granted.
\<close>

theorem lock_advance_rule_applies:
  "fst (acquireLocks sundayMorning ''bob2'' monday [41] officeState) = Inl AdvanceBookingClosed \<and>
   fst (acquireLocks sundayAfternoon ''bob2'' monday [41] officeState) = Inr ()"
  by code_simp

subsection \<open>One booking per seat and date\<close>

text \<open>
  Claim C1 says that no call creates two bookings for the same seat on the same date,
  whatever the seat list holds. The availability loop of \<^verbatim>\<open>/api/book\<close> looks each
  seat up in the bookings as they were before the call, so a list that names seat 41
  twice passes, and the commit pushes one booking per entry of the list.
\<close>

theorem confirm_repeated_seat_books_twice:
  "fst (confirmBooking thursdayMorning ''bob2'' monday [41, 41] officeState) = Inr [41, 41] \<and>
   bookings (snd (confirmBooking thursdayMorning ''bob2'' monday [41, 41] officeState)) =
     [\<lparr>b_date = monday, b_seatId = 41, b_userId = ''bob2'', b_bookedAt = 1000000\<rparr>,
      \<lparr>b_date = monday, b_seatId = 41, b_userId = ''bob2'', b_bookedAt = 1000000\<rparr>]"
  by code_simp

subsection \<open>Leave\<close>

lemma find_leave_None:
  "(find (\<lambda>l. lv_userId l = uid \<and> lv_date l = d) (leaves st) = None)
     = (leaveRecords st uid d = [])"
  by (auto simp: find_None_iff leaveRecords_def filter_empty_conv)

text \<open>
  Claim C7. Marking leave is idempotent. A second call for the same user and date
  answers as the first and leaves the state of the first. After the two calls the
  Leave records of the user for the date are the ones there were before, or the single
  new record when there was none; the leave counter of the user has gone up by one
  when the first call created the record and the user holds a designated seat, and
  not at all otherwise; and the bookings are those of before without the bookings of
  the user for the date.
\<close>

theorem markLeave_idempotent:
  assumes "users st uid = Some u"
  shows "markLeave uid d (snd (markLeave uid d st)) = markLeave uid d st \<and>
    leaveRecords (snd (markLeave uid d (snd (markLeave uid d st)))) (userId u) d =
      (if leaveRecords st (userId u) d = []
       then [\<lparr>lv_userId = userId u, lv_date = d,
              lv_seatId = (if holdsDesignatedSeat u then designatedSeatId u else None)\<rparr>]
       else leaveRecords st (userId u) d) \<and>
    map_option floaterLeaveCount (users (snd (markLeave uid d (snd (markLeave uid d st)))) uid) =
      Some (floaterLeaveCount u +
            (if leaveRecords st (userId u) d = [] \<and> holdsDesignatedSeat u then 1 else 0)) \<and>
    bookings (snd (markLeave uid d (snd (markLeave uid d st)))) =
      filter (\<lambda>b. \<not> (b_userId b = userId u \<and> b_date b = d)) (bookings st)"
proof -
  obtain st1 where st1: "markLeave uid d st = (Inr (), st1)"
    using assms by (simp add: markLeave_def Let_def)
  have u1: "\<exists>u'. users st1 uid = Some u' \<and> userId u' = userId u \<and>
                 designatedSeatId u' = designatedSeatId u \<and>
                 floaterLeaveCount u' = floaterLeaveCount u +
                   (if leaveRecords st (userId u) d = [] \<and> holdsDesignatedSeat u then 1 else 0)"
    using assms st1
    by (auto simp: markLeave_def Let_def find_leave_None holdsDesignatedSeat_def
             split: option.splits if_splits)
  have l1: "leaveRecords st1 (userId u) d =
      (if leaveRecords st (userId u) d = []
       then [\<lparr>lv_userId = userId u, lv_date = d,
              lv_seatId = (if holdsDesignatedSeat u then designatedSeatId u else None)\<rparr>]
       else leaveRecords st (userId u) d)"
    using assms st1
    by (auto simp: markLeave_def Let_def find_leave_None holdsDesignatedSeat_def leaveRecords_def
             split: option.splits if_splits)
  have b1: "bookings st1 = filter (\<lambda>b. \<not> (b_userId b = userId u \<and> b_date b = d)) (bookings st)"
    using assms st1 by (auto simp: markLeave_def Let_def split: option.splits if_splits)
  from u1 obtain u' where u': "users st1 uid = Some u'" "userId u' = userId u"
    "floaterLeaveCount u' = floaterLeaveCount u +
       (if leaveRecords st (userId u) d = [] \<and> holdsDesignatedSeat u then 1 else 0)"
    by blast
  have ne: "leaveRecords st1 (userId u) d \<noteq> []"
    using l1 by (simp split: if_splits)
  have again: "markLeave uid d st1 = (Inr (), st1)"
    using u' ne b1 by (simp add: markLeave_def Let_def find_leave_None)
  show ?thesis
    using st1 again l1 b1 u' by simp
qed

theorem markLeave_idempotent_witness:
  "users aliceBookedState ''alice1'' = Some alice \<and>
   markLeave ''alice1'' monday (snd (markLeave ''alice1'' monday aliceBookedState))
     = markLeave ''alice1'' monday aliceBookedState \<and>
   leaveRecords (snd (markLeave ''alice1'' monday (snd (markLeave ''alice1'' monday aliceBookedState))))
       ''alice1'' monday
     = [\<lparr>lv_userId = ''alice1'', lv_date = monday, lv_seatId = Some 1\<rparr>] \<and>
   map_option floaterLeaveCount
       (users (snd (markLeave ''alice1'' monday (snd (markLeave ''alice1'' monday aliceBookedState))))
          ''alice1'') = Some 1 \<and>
   bookings (snd (markLeave ''alice1'' monday (snd (markLeave ''alice1'' monday aliceBookedState))))
     = []"
proof -
  have u: "users aliceBookedState ''alice1'' = Some alice"
    by (simp add: aliceBookedState_def officeState_def)
  have r: "leaveRecords aliceBookedState ''alice1'' monday = []"
    by (simp add: leaveRecords_def aliceBookedState_def officeState_def initialState_def)
  have h: "holdsDesignatedSeat alice"
    by (simp add: holdsDesignatedSeat_def alice_def)
  have b: "bookings aliceBookedState =
      [\<lparr>b_date = monday, b_seatId = 1, b_userId = ''alice1'', b_bookedAt = 900000\<rparr>]"
    by (simp add: aliceBookedState_def)
  have a: "userId alice = ''alice1''" "designatedSeatId alice = Some 1" "floaterLeaveCount alice = 0"
    by (simp_all add: alice_def)
  note inst = markLeave_idempotent [OF u, of monday]
  have c1: "markLeave ''alice1'' monday (snd (markLeave ''alice1'' monday aliceBookedState))
     = markLeave ''alice1'' monday aliceBookedState"
    using inst by (rule conjunct1)
  show ?thesis
    using u c1 inst [THEN conjunct2] by (simp add: r h b a)
qed

subsection \<open>Cancellation\<close>

lemma find_own_booking_None:
  "(find (\<lambda>b. b_date b = d \<and> b_seatId b = sid \<and> b_userId b = userId u) (bookings st) = None)
     = (\<not> ownsBooking st u d sid)"
  by (auto simp: find_None_iff ownsBooking_def list_ex_iff)

text \<open>
  For a seat list that does not hold the id 0 the handler does what is asked of it. A
  request in which some requested seat has no booking of the caller for the date is
  rejected, and when the seat list passes the seat-id validation the error names the
  first such seat of the list. A rejected request leaves the state unchanged. A request
  that is accepted removes exactly the bookings of the caller and the locks of the caller
  for the date and the requested seats.
\<close>

lemma cancelBooking_positive_ids:
  assumes "users st uid = Some u" and "0 \<notin> set seatIds"
  shows "(list_ex (\<lambda>sid. \<not> ownsBooking st u d sid) seatIds \<longrightarrow>
            (\<exists>e. cancelBooking uid d seatIds st = (Inl e, st))) \<and>
         (\<forall>sid. validateSeatIds st seatIds = None \<and>
                find (\<lambda>sid. \<not> ownsBooking st u d sid) seatIds = Some sid \<longrightarrow>
                cancelBooking uid d seatIds st = (Inl (NotOwnBooking sid), st)) \<and>
         (\<forall>e. fst (cancelBooking uid d seatIds st) = Inl e \<longrightarrow>
                snd (cancelBooking uid d seatIds st) = st) \<and>
         (fst (cancelBooking uid d seatIds st) = Inr () \<longrightarrow>
            snd (cancelBooking uid d seatIds st) =
              st\<lparr>bookings := filter (\<lambda>b. \<not> (b_date b = d \<and> b_seatId b \<in> set seatIds \<and>
                                            b_userId b = userId u)) (bookings st),
                 locks := filter (\<lambda>l. \<not> (l_date l = d \<and> l_seatId l \<in> set seatIds \<and>
                                         l_userId l = userId u)) (locks st)\<rparr>)"
proof -
  let ?lacks = "\<lambda>sid. \<not> ownsBooking st u d sid"
  have pos: "\<And>sid. find ?lacks seatIds = Some sid \<Longrightarrow> sid \<noteq> 0"
    using assms(2) by (metis find_Some_iff nth_mem)
  have a: "list_ex ?lacks seatIds \<longrightarrow> (\<exists>e. cancelBooking uid d seatIds st = (Inl e, st))"
  proof
    assume "list_ex ?lacks seatIds"
    then obtain sid where "find ?lacks seatIds = Some sid"
      by (cases "find ?lacks seatIds") (auto simp: find_None_iff list_ex_iff)
    then show "\<exists>e. cancelBooking uid d seatIds st = (Inl e, st)"
      using assms(1) pos
      by (auto simp: cancelBooking_def Let_def find_own_booking_None split: option.splits)
  qed
  have b: "\<forall>sid. validateSeatIds st seatIds = None \<and> find ?lacks seatIds = Some sid \<longrightarrow>
                cancelBooking uid d seatIds st = (Inl (NotOwnBooking sid), st)"
    using assms(1) pos
    by (auto simp: cancelBooking_def Let_def find_own_booking_None split: option.splits)
  have c: "\<forall>e. fst (cancelBooking uid d seatIds st) = Inl e \<longrightarrow>
                snd (cancelBooking uid d seatIds st) = st"
    by (auto simp: cancelBooking_def Let_def split: option.splits)
  have e: "fst (cancelBooking uid d seatIds st) = Inr () \<longrightarrow>
            snd (cancelBooking uid d seatIds st) =
              st\<lparr>bookings := filter (\<lambda>b. \<not> (b_date b = d \<and> b_seatId b \<in> set seatIds \<and>
                                            b_userId b = userId u)) (bookings st),
                 locks := filter (\<lambda>l. \<not> (l_date l = d \<and> l_seatId l \<in> set seatIds \<and>
                                         l_userId l = userId u)) (locks st)\<rparr>"
    using assms(1) by (auto simp: cancelBooking_def Let_def split: option.splits)
  show ?thesis using a b c e by blast
qed

text \<open>
  Claim C9 says that a cancel request is rejected as a whole when any requested seat
  has no booking of the caller for the date. The handler tests the seat id that
  \<^verbatim>\<open>find\<close> returned for truth, in \<^verbatim>\<open>validateSeatIds\<close> and again for the seat
  without a booking, and the id 0 is not true: the second user, who holds seat 41 for
  \<open>monday\<close>, asks to cancel seats 0 and 41. Seat 0 is not in the catalog and nobody
  has booked it, yet the request is accepted and the booking of seat 41 is removed.
\<close>

theorem cancel_accepts_list_with_seat_zero:
  "getSeatDefinition bookedState 0 = None \<and>
   \<not> ownsBooking bookedState bob monday 0 \<and>
   bookings bookedState =
     [\<lparr>b_date = monday, b_seatId = 41, b_userId = ''bob2'', b_bookedAt = 900000\<rparr>] \<and>
   fst (cancelBooking ''bob2'' monday [0, 41] bookedState) = Inr () \<and>
   bookings (snd (cancelBooking ''bob2'' monday [0, 41] bookedState)) = []"
  by code_simp

subsection \<open>Ownership of designated seats\<close>

lemma seatOwnershipLoop_foreign_seat:
  assumes "getSeatDefinition st S = Some sd" "sd_type sd = Designated"
    "sd_assignedTo sd = Some U" "U \<noteq> []" "\<not> isUserOnLeave st U D" "userId v \<noteq> U"
  shows "S \<in> set seatIds \<Longrightarrow> seatOwnershipLoop st v D bd seatIds \<noteq> None"
proof (induction seatIds)
  case Nil
  then show ?case by simp
next
  case (Cons sid rest)
  show ?case
  proof (cases "sid = S")
    case True
    then show ?thesis using assms by simp
  next
    case False
    then have "S \<in> set rest" using Cons.prems by simp
    then have "seatOwnershipLoop st v D bd rest \<noteq> None" by (rule Cons.IH)
    then show ?thesis by (auto split: option.splits)
  qed
qed

text \<open>
  Claim C6. Let \<open>S\<close> be a designated seat with owner \<open>U\<close> and \<open>D\<close> a weekday that is
  no holiday. If \<open>U\<close> has a Leave record for \<open>D\<close>, the ownership check passes for
  every user asking for \<open>S\<close>, and the whole validation passes for every user who is
  not on leave and for whom the advance window is open. If \<open>U\<close> has no Leave record
  for \<open>D\<close>, the ownership check refuses any other user with the error "not assigned to
  you" naming \<open>S\<close>, the validation of any seat list holding \<open>S\<close> fails for such a user,
  and the validation of \<open>U\<close>'s own request for \<open>S\<close> passes exactly when the batch of
  \<open>U\<close> is scheduled on \<open>D\<close>, failing otherwise with the batch-day error.
\<close>

theorem designated_seat_ownership:
  assumes "getSeatDefinition st S = Some sd" and "sd_type sd = Designated"
    and "sd_assignedTo sd = Some U" and "U \<noteq> []"
    and "\<not> isWeekend D" and "\<not> isHoliday st D"
  shows "(isUserOnLeave st U D \<longrightarrow>
            seatOwnershipLoop st v D bd [S] = None \<and>
            (\<not> isUserOnLeave st (userId v) D \<and> advanceOpen clk D \<longrightarrow>
               validateBookingPolicy clk st v D [S] = None)) \<and>
         (\<not> isUserOnLeave st U D \<and> userId v \<noteq> U \<longrightarrow>
            seatOwnershipLoop st v D bd [S] = Some (NotAssignedToYou S) \<and>
            (S \<in> set seatIds \<longrightarrow> validateBookingPolicy clk st v D seatIds \<noteq> None) \<and>
            (\<not> isUserOnLeave st (userId v) D \<and> advanceOpen clk D \<longrightarrow>
               validateBookingPolicy clk st v D [S] = Some (NotAssignedToYou S))) \<and>
         (\<not> isUserOnLeave st U D \<and> userId v = U \<and> advanceOpen clk D \<longrightarrow>
            validateBookingPolicy clk st v D [S] =
              (if isBatchScheduledOnDate st (batch v) D then None else Some NotBatchDay))"
proof -
  have leave: "isUserOnLeave st U D \<longrightarrow>
            seatOwnershipLoop st v D bd [S] = None \<and>
            (\<not> isUserOnLeave st (userId v) D \<and> advanceOpen clk D \<longrightarrow>
               validateBookingPolicy clk st v D [S] = None)"
    using assms by (auto simp: validateBookingPolicy_def advanceOpen_def Let_def)
  have other: "\<not> isUserOnLeave st U D \<and> userId v \<noteq> U \<longrightarrow>
            seatOwnershipLoop st v D bd [S] = Some (NotAssignedToYou S) \<and>
            (S \<in> set seatIds \<longrightarrow> validateBookingPolicy clk st v D seatIds \<noteq> None) \<and>
            (\<not> isUserOnLeave st (userId v) D \<and> advanceOpen clk D \<longrightarrow>
               validateBookingPolicy clk st v D [S] = Some (NotAssignedToYou S))"
  proof (intro impI conjI)
    assume h: "\<not> isUserOnLeave st U D \<and> userId v \<noteq> U"
    show "seatOwnershipLoop st v D bd [S] = Some (NotAssignedToYou S)"
      using assms h by auto
    show "validateBookingPolicy clk st v D seatIds \<noteq> None" if "S \<in> set seatIds"
      using seatOwnershipLoop_foreign_seat [OF assms(1-4), of D v seatIds] h that
      by (simp add: validateBookingPolicy_def Let_def)
    show "validateBookingPolicy clk st v D [S] = Some (NotAssignedToYou S)"
      if "\<not> isUserOnLeave st (userId v) D \<and> advanceOpen clk D"
      using assms h that by (auto simp: validateBookingPolicy_def advanceOpen_def Let_def)
  qed
  have own: "\<not> isUserOnLeave st U D \<and> userId v = U \<and> advanceOpen clk D \<longrightarrow>
            validateBookingPolicy clk st v D [S] =
              (if isBatchScheduledOnDate st (batch v) D then None else Some NotBatchDay)"
    using assms by (auto simp: validateBookingPolicy_def advanceOpen_def Let_def)
  show ?thesis using leave other own by blast
qed

lemma monday_facts:
  "\<not> isWeekend monday" "getWeekType monday = ''week1''" "getDayName monday = ''Mon''"
  by code_simp+

theorem designated_seat_ownership_witness:
  "getSeatDefinition officeState 1 =
     Some \<lparr>sd_seatId = 1, sd_type = Designated, sd_assignedTo = Some ''alice1''\<rparr> \<and>
   getSeatDefinition aliceOnLeaveState 1 =
     Some \<lparr>sd_seatId = 1, sd_type = Designated, sd_assignedTo = Some ''alice1''\<rparr> \<and>
   \<not> isWeekend monday \<and> \<not> isHoliday officeState monday \<and> \<not> isHoliday aliceOnLeaveState monday \<and>
   isUserOnLeave aliceOnLeaveState ''alice1'' monday \<and>
   \<not> isUserOnLeave aliceOnLeaveState ''bob2'' monday \<and>
   \<not> isUserOnLeave officeState ''alice1'' monday \<and>
   \<not> isUserOnLeave officeState ''bob2'' monday \<and>
   advanceOpen thursdayMorning monday \<and>
   isBatchScheduledOnDate officeState ''batch1'' monday \<and>
   validateBookingPolicy thursdayMorning aliceOnLeaveState bob monday [1] = None \<and>
   validateBookingPolicy thursdayMorning officeState bob monday [1] = Some (NotAssignedToYou 1) \<and>
   validateBookingPolicy thursdayMorning officeState bob monday [41, 1] \<noteq> None \<and>
   validateBookingPolicy thursdayMorning officeState alice monday [1] = None"
proof -
  let ?sd = "\<lparr>sd_seatId = 1, sd_type = Designated, sd_assignedTo = Some ''alice1''\<rparr>"
  have g1: "getSeatDefinition officeState 1 = Some ?sd" by code_simp
  have g2: "getSeatDefinition aliceOnLeaveState 1 = Some ?sd" by code_simp
  have t: "sd_type ?sd = Designated" "sd_assignedTo ?sd = Some ''alice1''" "''alice1'' \<noteq> []"
    by simp_all
  have w: "\<not> isWeekend monday" by (rule monday_facts)
  have h1: "\<not> isHoliday officeState monday"
    by (simp add: isHoliday_def officeState_def initialState_def)
  have h2: "\<not> isHoliday aliceOnLeaveState monday"
    by (simp add: isHoliday_def aliceOnLeaveState_def officeState_def initialState_def)
  have l: "isUserOnLeave aliceOnLeaveState ''alice1'' monday"
    "\<not> isUserOnLeave aliceOnLeaveState ''bob2'' monday"
    "\<not> isUserOnLeave officeState ''alice1'' monday"
    "\<not> isUserOnLeave officeState ''bob2'' monday"
    by (simp_all add: isUserOnLeave_def aliceOnLeaveState_def officeState_def initialState_def)
  have a: "advanceOpen thursdayMorning monday"
    by (simp add: advanceOpen_def thursdayMorning_def)
  have s: "isBatchScheduledOnDate officeState ''batch1'' monday"
    by (simp add: isBatchScheduledOnDate_def monday_facts officeState_def initialState_def
        DEFAULT_BATCH_SCHEDULE_def)
  have n: "userId bob = ''bob2''" "userId alice = ''alice1''" "batch alice = ''batch1''"
    by (simp_all add: bob_def alice_def)
  note onLeave = designated_seat_ownership [OF g2 t w h2, of bob False thursdayMorning "[41, 1]"]
  note foreign = designated_seat_ownership [OF g1 t w h1, of bob False thursdayMorning "[41, 1]"]
  note own = designated_seat_ownership [OF g1 t w h1, of alice False thursdayMorning "[41, 1]"]
  have r1: "validateBookingPolicy thursdayMorning aliceOnLeaveState bob monday [1] = None"
    using onLeave l a n by simp
  have r2: "validateBookingPolicy thursdayMorning officeState bob monday [1] = Some (NotAssignedToYou 1)"
    "validateBookingPolicy thursdayMorning officeState bob monday [41, 1] \<noteq> None"
    using foreign l a n by simp_all
  have r3: "validateBookingPolicy thursdayMorning officeState alice monday [1] = None"
    using own l a n s by simp
  show ?thesis using g1 g2 w h1 h2 l a s r1 r2 r3 by simp
qed

subsection \<open>The attendance cycle\<close>

lemma startOfIsoWeek_weekIndex: "startOfIsoWeek n = 7 * weekIndex n - 3"
  unfolding startOfIsoWeek_def weekIndex_def by presburger

lemma isoWeek_weekIndex:
  "isoWeek n = weekIndex n + ((- daysFromCivil (isoWeekYear n) 1 1) div 7 + 1)"
proof -
  have thu: "startOfIsoWeek n + 3 = 7 * weekIndex n"
    by (simp add: startOfIsoWeek_weekIndex)
  have "(7 * weekIndex n - j) div 7 = weekIndex n + (- j) div 7" for j :: int
    by presburger
  then show ?thesis
    by (simp add: isoWeek_def isoWeekYear_def Let_def thu)
qed

lemma weekIndex_shift:
  "weekIndex (n + 7) = weekIndex n + 1" "weekIndex (n - 7) = weekIndex n - 1"
  unfolding weekIndex_def by presburger+

lemma getCycleBounds_weekIndex:
  "getCycleBounds d =
     (if isoWeek d mod 2 = 1 then (7 * weekIndex d - 3, 7 * weekIndex d + 10)
      else (7 * weekIndex d - 10, 7 * weekIndex d + 3))"
  by (simp add: getCycleBounds_def Let_def setIsoWeek_def endOfIsoWeek_def
      startOfIsoWeek_weekIndex weekIndex_shift)

lemma date_in_own_week: "7 * weekIndex d - 3 \<le> d \<and> d \<le> 7 * weekIndex d + 3"
  unfolding weekIndex_def by presburger

lemma date_in_own_cycle: "fst (getCycleBounds d) \<le> d \<and> d \<le> snd (getCycleBounds d)"
  using date_in_own_week [of d] by (simp add: getCycleBounds_weekIndex)

lemma sameWeekPair_cycle:
  assumes "sameWeekPair d1 d2"
  shows "getCycleBounds d1 = getCycleBounds d2"
proof -
  define c where "c = (- daysFromCivil (isoWeekYear d1) 1 1) div 7 + 1"
  have w1: "isoWeek d1 = weekIndex d1 + c"
    by (simp add: c_def isoWeek_weekIndex)
  have w2: "isoWeek d2 = weekIndex d2 + c"
    using assms isoWeek_weekIndex [of d2] by (simp add: c_def sameWeekPair_def)
  have pair: "(weekIndex d1 + c + 1) div 2 = (weekIndex d2 + c + 1) div 2"
    using assms by (simp add: sameWeekPair_def w1 w2)
  have cases: "weekIndex d1 = weekIndex d2
      \<or> ((weekIndex d1 + c) mod 2 = 1 \<and> (weekIndex d2 + c) mod 2 = 0
           \<and> weekIndex d2 = weekIndex d1 + 1)
      \<or> ((weekIndex d2 + c) mod 2 = 1 \<and> (weekIndex d1 + c) mod 2 = 0
           \<and> weekIndex d1 = weekIndex d2 + 1)"
    using pair by presburger
  show ?thesis
    unfolding getCycleBounds_weekIndex w1 w2 using cases by auto
qed

lemma attendance_card:
  "getAttendanceCountForCycle st uid d =
     card {x. \<exists>b \<in> set (bookings st). b_date b = x \<and> b_userId b = uid \<and>
              fst (getCycleBounds d) \<le> x \<and> x \<le> snd (getCycleBounds d)}"
proof -
  obtain s e where se: "getCycleBounds d = (s, e)" by (cases "getCycleBounds d")
  have "set (map b_date (filter (\<lambda>b. s \<le> b_date b \<and> b_date b \<le> e)
            (filter (\<lambda>b. b_userId b = uid) (bookings st)))) =
        {x. \<exists>b \<in> set (bookings st). b_date b = x \<and> b_userId b = uid \<and> s \<le> x \<and> x \<le> e}"
    by auto
  then show ?thesis
    by (simp add: getAttendanceCountForCycle_def se length_remdups_card_conv)
qed

lemma attendance_counts_booking:
  assumes "list_ex (\<lambda>b. b_userId b = uid \<and> b_date b = d1) (bookings st)"
    and "fst (getCycleBounds d2) \<le> d1" and "d1 \<le> snd (getCycleBounds d2)"
  shows "getAttendanceCountForCycle st uid d2 =
     getAttendanceCountForCycle
       (st\<lparr>bookings := filter (\<lambda>b. \<not> (b_userId b = uid \<and> b_date b = d1)) (bookings st)\<rparr>) uid d2 + 1"
proof -
  let ?A = "{x. \<exists>b \<in> set (bookings st). b_date b = x \<and> b_userId b = uid \<and>
              fst (getCycleBounds d2) \<le> x \<and> x \<le> snd (getCycleBounds d2)}"
  let ?st' = "st\<lparr>bookings := filter (\<lambda>b. \<not> (b_userId b = uid \<and> b_date b = d1)) (bookings st)\<rparr>"
  let ?B = "{x. \<exists>b \<in> set (bookings ?st'). b_date b = x \<and> b_userId b = uid \<and>
              fst (getCycleBounds d2) \<le> x \<and> x \<le> snd (getCycleBounds d2)}"
  have fin: "finite ?A"
    by (rule finite_subset [of _ "b_date ` set (bookings st)"]) auto
  have mem: "d1 \<in> ?A"
    using assms by (auto simp: list_ex_iff)
  have rest: "?B = ?A - {d1}" by auto
  have "card ?A = Suc (card (?A - {d1}))"
    using fin mem by (rule card.remove)
  then have "card ?A = card ?B + 1"
    by (simp only: rest Suc_eq_plus1)
  then show ?thesis
    by (simp only: attendance_card)
qed

text \<open>
  Claim C8. For two dates in the same pair of an odd and an even ISO week the cycle
  computed from either date is the same, and a booking of a user on the first date is
  counted in the attendance count that the policy summary reports for the second
  date: the count is one more than it is without the bookings of the user on the
  first date.
\<close>

theorem cycle_consistent:
  assumes "sameWeekPair d1 d2"
  shows "getCycleBounds d1 = getCycleBounds d2 \<and>
         (list_ex (\<lambda>b. b_userId b = userId u \<and> b_date b = d1) (bookings st) \<longrightarrow>
            ps_attendanceCount (buildPolicySummary st u d2) =
            ps_attendanceCount (buildPolicySummary
              (st\<lparr>bookings := filter (\<lambda>b. \<not> (b_userId b = userId u \<and> b_date b = d1)) (bookings st)\<rparr>)
              u d2) + 1)"
proof -
  have same: "getCycleBounds d1 = getCycleBounds d2"
    using assms by (rule sameWeekPair_cycle)
  have inside: "fst (getCycleBounds d2) \<le> d1" "d1 \<le> snd (getCycleBounds d2)"
    using date_in_own_cycle [of d1] by (simp_all add: same)
  show ?thesis
    using same attendance_counts_booking [OF _ inside, of "userId u" st]
    by (simp add: buildPolicySummary_def Let_def)
qed

theorem cycle_consistent_witness:
  "sameWeekPair monday (monday + 10) \<and>
   getCycleBounds monday = getCycleBounds (monday + 10) \<and>
   list_ex (\<lambda>b. b_userId b = userId bob \<and> b_date b = monday) (bookings bookedState) \<and>
   ps_attendanceCount (buildPolicySummary bookedState bob (monday + 10)) =
     ps_attendanceCount (buildPolicySummary
       (bookedState\<lparr>bookings := filter (\<lambda>b. \<not> (b_userId b = userId bob \<and> b_date b = monday))
            (bookings bookedState)\<rparr>) bob (monday + 10)) + 1"
proof -
  have p: "sameWeekPair monday (monday + 10)" by code_simp
  have b: "list_ex (\<lambda>b. b_userId b = userId bob \<and> b_date b = monday) (bookings bookedState)"
    by (simp add: bookedState_def bob_def)
  show ?thesis
    using cycle_consistent [OF p, of bob bookedState] p b by simp
qed

subsection \<open>Expired locks\<close>

lemma clearExpired_fields:
  "bookings (clearExpiredLocksForDate t d st) = bookings st"
  "seatDefinitions (clearExpiredLocksForDate t d st) = seatDefinitions st"
  "users (clearExpiredLocksForDate t d st) = users st"
  "leaves (clearExpiredLocksForDate t d st) = leaves st"
  "locks (clearExpiredLocksForDate t d st) =
     filter (\<lambda>l. l_date l \<noteq> d \<or> l_lockExpiry l > t) (locks st)"
  by (simp_all add: clearExpiredLocksForDate_def)

lemma withoutLocks_fields:
  "bookings (withoutLocks gone st) = bookings st"
  "seatDefinitions (withoutLocks gone st) = seatDefinitions st"
  "users (withoutLocks gone st) = users st"
  "leaves (withoutLocks gone st) = leaves st"
  "holidays (withoutLocks gone st) = holidays st"
  "batchSchedule (withoutLocks gone st) = batchSchedule st"
  "locks (withoutLocks gone st) = filter (\<lambda>l. \<not> gone l) (locks st)"
  by (simp_all add: withoutLocks_def)

lemma getSeatDefinition_cong:
  "seatDefinitions st' = seatDefinitions st \<Longrightarrow> getSeatDefinition st' sid = getSeatDefinition st sid"
  by (simp add: getSeatDefinition_def)

lemma validateSeatIds_cong:
  "seatDefinitions st' = seatDefinitions st \<Longrightarrow> validateSeatIds st' ids = validateSeatIds st ids"
  by (simp add: validateSeatIds_def getSeatDefinition_def)

lemma seatOwnershipLoop_cong:
  assumes "seatDefinitions st' = seatDefinitions st" "leaves st' = leaves st"
  shows "seatOwnershipLoop st' u d bd ids = seatOwnershipLoop st u d bd ids"
  using assms
  by (induction ids) (auto simp: getSeatDefinition_def isUserOnLeave_def split: option.splits)

lemma validateBookingPolicy_cong:
  assumes "seatDefinitions st' = seatDefinitions st" "leaves st' = leaves st"
    "holidays st' = holidays st" "batchSchedule st' = batchSchedule st"
  shows "validateBookingPolicy clk st' u d ids = validateBookingPolicy clk st u d ids"
  using assms seatOwnershipLoop_cong [OF assms(1,2)]
  by (simp add: validateBookingPolicy_def isHoliday_def isUserOnLeave_def
      isBatchScheduledOnDate_def)

lemma find_purged:
  assumes "\<forall>l \<in> set ls. gone l \<longrightarrow> l_lockExpiry l \<le> t"
  shows "find (\<lambda>l. l_date l = d \<and> Q l)
           (filter (\<lambda>l. l_date l \<noteq> d \<or> l_lockExpiry l > t) (filter (\<lambda>l. \<not> gone l) ls)) =
         find (\<lambda>l. l_date l = d \<and> Q l) (filter (\<lambda>l. l_date l \<noteq> d \<or> l_lockExpiry l > t) ls)"
  using assms by (induction ls) auto

lemma bookAvailabilityLoop_cong:
  assumes "bookings st' = bookings st"
    and "\<And>sid. find (\<lambda>l. l_date l = d \<and> l_seatId l = sid) (locks st') =
                find (\<lambda>l. l_date l = d \<and> l_seatId l = sid) (locks st)"
  shows "bookAvailabilityLoop st' u d now ids = bookAvailabilityLoop st u d now ids"
  by (induction ids) (auto simp: assms split: option.splits)

lemma lockAvailabilityLoop_cong:
  assumes "bookings st' = bookings st"
    and "\<And>sid. find (\<lambda>l. l_date l = d \<and> l_seatId l = sid) (locks st') =
                find (\<lambda>l. l_date l = d \<and> l_seatId l = sid) (locks st)"
  shows "lockAvailabilityLoop st' u d now ids = lockAvailabilityLoop st u d now ids"
  by (induction ids) (auto simp: assms split: option.splits)

lemma purged_loops:
  assumes "\<forall>l \<in> set (locks st). gone l \<longrightarrow> l_lockExpiry l \<le> t"
  shows "bookAvailabilityLoop (clearExpiredLocksForDate t d (withoutLocks gone st)) u d now ids =
         bookAvailabilityLoop (clearExpiredLocksForDate t d st) u d now ids"
    and "lockAvailabilityLoop (clearExpiredLocksForDate t d (withoutLocks gone st)) u d now ids =
         lockAvailabilityLoop (clearExpiredLocksForDate t d st) u d now ids"
proof -
  have f: "find (\<lambda>l. l_date l = d \<and> l_seatId l = sid)
             (locks (clearExpiredLocksForDate t d (withoutLocks gone st))) =
           find (\<lambda>l. l_date l = d \<and> l_seatId l = sid) (locks (clearExpiredLocksForDate t d st))"
    for sid
    using find_purged [OF assms, of d "\<lambda>l. l_seatId l = sid"]
    by (simp add: clearExpired_fields withoutLocks_fields)
  have b: "bookings (clearExpiredLocksForDate t d (withoutLocks gone st)) =
           bookings (clearExpiredLocksForDate t d st)"
    by (simp add: clearExpired_fields withoutLocks_fields)
  show "bookAvailabilityLoop (clearExpiredLocksForDate t d (withoutLocks gone st)) u d now ids =
        bookAvailabilityLoop (clearExpiredLocksForDate t d st) u d now ids"
    using b f by (rule bookAvailabilityLoop_cong)
  show "lockAvailabilityLoop (clearExpiredLocksForDate t d (withoutLocks gone st)) u d now ids =
        lockAvailabilityLoop (clearExpiredLocksForDate t d st) u d now ids"
    using b f by (rule lockAvailabilityLoop_cong)
qed

lemma confirm_response_without_expired:
  assumes "\<forall>l \<in> set (locks st). gone l \<longrightarrow> l_lockExpiry l \<le> purgeTs clk"
  shows "fst (confirmBooking clk uid d ids (withoutLocks gone st)) =
         fst (confirmBooking clk uid d ids st)"
proof -
  have v: "validateSeatIds (withoutLocks gone st) ids = validateSeatIds st ids"
    by (rule validateSeatIds_cong) (simp add: withoutLocks_fields)
  have p: "validateBookingPolicy clk (withoutLocks gone st) u d ids =
           validateBookingPolicy clk st u d ids" for u
    by (rule validateBookingPolicy_cong) (simp_all add: withoutLocks_fields)
  show ?thesis
    by (simp add: confirmBooking_def withoutLocks_fields v p purged_loops(1) [OF assms] Let_def
        split: option.splits)
qed

lemma acquire_response_without_expired:
  assumes "\<forall>l \<in> set (locks st). gone l \<longrightarrow> l_lockExpiry l \<le> purgeTs clk"
  shows "fst (acquireLocks clk uid d ids (withoutLocks gone st)) =
         fst (acquireLocks clk uid d ids st)"
proof -
  have v: "validateSeatIds (withoutLocks gone st) ids = validateSeatIds st ids"
    by (rule validateSeatIds_cong) (simp add: withoutLocks_fields)
  have p: "validateBookingPolicy clk (withoutLocks gone st) u d ids =
           validateBookingPolicy clk st u d ids" for u
    by (rule validateBookingPolicy_cong) (simp_all add: withoutLocks_fields)
  show ?thesis
    by (simp add: acquireLocks_def withoutLocks_fields v p purged_loops(2) [OF assms] Let_def
        isHoliday_def split: option.splits)
qed

lemma seatView_locked:
  assumes "sv_status (seatView st d now i sd) = Locked"
  shows "\<exists>l \<in> set (locks st). l_date l = d \<and> l_seatId l = sv_seatId (seatView st d now i sd) \<and>
           sv_lockedBy (seatView st d now i sd) = Some (l_userId l) \<and> now < l_lockExpiry l"
proof -
  let ?P = "\<lambda>l. l_date l = d \<and> l_seatId l = sd_seatId sd \<and> l_lockExpiry l > now"
  from assms obtain l where l: "find ?P (locks st) = Some l"
    and b: "find (\<lambda>b. b_date b = d \<and> b_seatId b = sd_seatId sd) (bookings st) = None"
    by (auto simp: seatView_def Let_def split: if_splits)
  from l have "l \<in> set (locks st)" "?P l"
    by (auto simp: find_Some_iff)
  then show ?thesis
    using l b by (auto simp: seatView_def Let_def)
qed

lemma seatViews_without_expired:
  assumes "\<forall>l \<in> set (locks st). gone l \<longrightarrow> l_lockExpiry l \<le> purgeTs clk"
  shows "fst (getSeatStateForDate clk d (withoutLocks gone st)) = fst (getSeatStateForDate clk d st)"
proof -
  have "seatView (clearExpiredLocksForDate (purgeTs clk) d (withoutLocks gone st)) d now i sd =
        seatView (clearExpiredLocksForDate (purgeTs clk) d st) d now i sd" for now i sd
    using find_purged [OF assms, of d "\<lambda>l. l_seatId l = sd_seatId sd \<and> now < l_lockExpiry l"]
    by (simp add: seatView_def clearExpired_fields withoutLocks_fields)
  then show ?thesis
    by (simp add: getSeatStateForDate_def Let_def clearExpired_fields withoutLocks_fields
        case_prod_beta)
qed

text \<open>
  Locks that have expired by the time the request reads for its purge are not
  observable. Take any such locks out of the store: the seat views of the date, the
  response of a lock request and the response of a booking request are the same as
  with those locks in the store. Moreover a seat is reported as locked only with a
  lock of the store for the date and the seat that expires after both clock reads of
  the request, and the view names the holder of that lock.
\<close>

lemma expired_at_purge_unobservable:
  assumes "\<forall>l \<in> set (locks st). gone l \<longrightarrow> l_lockExpiry l \<le> purgeTs clk"
  shows "fst (getSeatStateForDate clk d (withoutLocks gone st)) = fst (getSeatStateForDate clk d st) \<and>
    (\<forall>v \<in> set (fst (getSeatStateForDate clk d st)). sv_status v = Locked \<longrightarrow>
       (\<exists>l \<in> set (locks st). l_date l = d \<and> l_seatId l = sv_seatId v \<and>
          sv_lockedBy v = Some (l_userId l) \<and>
          purgeTs clk < l_lockExpiry l \<and> checkTs clk < l_lockExpiry l)) \<and>
    fst (acquireLocks clk uid d seatIds (withoutLocks gone st)) =
      fst (acquireLocks clk uid d seatIds st) \<and>
    fst (confirmBooking clk uid d seatIds (withoutLocks gone st)) =
      fst (confirmBooking clk uid d seatIds st)"
proof -
  have views: "\<forall>v \<in> set (fst (getSeatStateForDate clk d st)). sv_status v = Locked \<longrightarrow>
       (\<exists>l \<in> set (locks st). l_date l = d \<and> l_seatId l = sv_seatId v \<and>
          sv_lockedBy v = Some (l_userId l) \<and>
          purgeTs clk < l_lockExpiry l \<and> checkTs clk < l_lockExpiry l)"
  proof (intro ballI impI)
    fix v
    assume v: "v \<in> set (fst (getSeatStateForDate clk d st))" and s: "sv_status v = Locked"
    let ?st1 = "clearExpiredLocksForDate (purgeTs clk) d st"
    from v obtain i sd where eq: "v = seatView ?st1 d (checkTs clk) i sd"
      by (auto simp: getSeatStateForDate_def Let_def)
    from seatView_locked [of ?st1 d "checkTs clk" i sd] s eq
    obtain l where "l \<in> set (locks ?st1)" "l_date l = d" "l_seatId l = sv_seatId v"
      "sv_lockedBy v = Some (l_userId l)" "checkTs clk < l_lockExpiry l"
      by auto
    then show "\<exists>l \<in> set (locks st). l_date l = d \<and> l_seatId l = sv_seatId v \<and>
          sv_lockedBy v = Some (l_userId l) \<and>
          purgeTs clk < l_lockExpiry l \<and> checkTs clk < l_lockExpiry l"
      by (auto simp: clearExpired_fields)
  qed
  show ?thesis
    using views seatViews_without_expired [OF assms] acquire_response_without_expired [OF assms]
      confirm_response_without_expired [OF assms]
    by simp
qed

text \<open>
  A lock request is refused on account of a lock only when the lock belongs to another
  user and expires after both clock reads of the request.
\<close>

lemma lockAvailabilityLoop_LockedByOther:
  "lockAvailabilityLoop st u d now ids = Some (LockedByOther sid) \<Longrightarrow>
     \<exists>l \<in> set (locks st). l_date l = d \<and> l_seatId l = sid \<and>
        l_userId l \<noteq> userId u \<and> now < l_lockExpiry l"
proof (induction ids)
  case Nil
  then show ?case by simp
next
  case (Cons a ids)
  show ?case
  proof (cases "lockAvailabilityLoop st u d now ids = Some (LockedByOther sid)")
    case True
    then show ?thesis by (rule Cons.IH)
  next
    case False
    with Cons.prems obtain l where "find (\<lambda>l. l_date l = d \<and> l_seatId l = a) (locks st) = Some l"
      "l_userId l \<noteq> userId u" "now < l_lockExpiry l" "a = sid"
      by (auto split: option.splits if_splits)
    then show ?thesis by (auto simp: find_Some_iff)
  qed
qed

lemma acquire_refused_by_live_lock_only:
  assumes "users st uid = Some u"
    and "fst (acquireLocks clk uid d ids st) = Inl (LockedByOther sid)"
  shows "\<exists>l \<in> set (locks st). l_date l = d \<and> l_seatId l = sid \<and> l_userId l \<noteq> userId u \<and>
           purgeTs clk < l_lockExpiry l \<and> checkTs clk < l_lockExpiry l"
proof -
  let ?st1 = "clearExpiredLocksForDate (purgeTs clk) d st"
  have nv: "validateSeatIds st ids \<noteq> Some (LockedByOther sid)"
    by (auto simp: validateSeatIds_def split: option.splits)
  have no: "seatOwnershipLoop st u d bd xs \<noteq> Some (LockedByOther sid)" for bd xs
    by (induction xs) (auto split: option.splits)
  have np: "validateBookingPolicy clk st u d ids \<noteq> Some (LockedByOther sid)"
    using no by (auto simp: validateBookingPolicy_def Let_def)
  from assms nv np have "lockAvailabilityLoop ?st1 u d (checkTs clk) ids = Some (LockedByOther sid)"
    by (auto simp: acquireLocks_def Let_def split: option.splits if_splits)
  then obtain l where "l \<in> set (locks ?st1)" "l_date l = d" "l_seatId l = sid"
    "l_userId l \<noteq> userId u" "checkTs clk < l_lockExpiry l"
    using lockAvailabilityLoop_LockedByOther by blast
  then show ?thesis
    by (auto simp: clearExpired_fields)
qed

text \<open>
  Claim C5 says that a lock whose expiry is not after the current time is never
  observable: the seat views never show it, and it never makes a lock request or a
  booking request fail. The seat views and the lock path keep to this at both clock
  reads of a request. The booking path does not. It reads the clock once for the purge
  and once more for the availability loop, and the loop answers "lock expired" for a
  lock that the purge has left and that has expired at the second read. The lock of the
  first user on seat 42 runs out at time 1000001; the second user asks to book seat 42,
  the purge reads time 1000000 and the loop reads time 1000001. The request is refused
  on account of that lock, which has expired at the time of the check; without the lock
  the same request is accepted, and the lock request of the second user for the seat is
  granted at the same clock reads.
\<close>

theorem confirm_refused_by_lock_expired_at_check:
  "locks raceLockState =
     [\<lparr>l_date = monday, l_seatId = 42, l_userId = ''alice1'', l_lockExpiry = 1000001\<rparr>] \<and>
   purgeTs tickingClock = 1000000 \<and> checkTs tickingClock = 1000001 \<and>
   fst (confirmBooking tickingClock ''bob2'' monday [42] raceLockState) = Inl (LockExpired 42) \<and>
   fst (confirmBooking tickingClock ''bob2'' monday [42] (raceLockState\<lparr>locks := []\<rparr>))
     = Inr [42] \<and>
   fst (acquireLocks tickingClock ''bob2'' monday [42] raceLockState) = Inr ()"
  by code_simp

subsection \<open>Booking: all or nothing\<close>

lemma confirm_rejected_state:
  assumes "fst (confirmBooking clk uid d ids st) = Inl e"
  shows "snd (confirmBooking clk uid d ids st) = st \<or>
         snd (confirmBooking clk uid d ids st) = clearExpiredLocksForDate (purgeTs clk) d st"
  using assms
  by (auto simp: confirmBooking_def Let_def split: option.splits if_splits)

lemma confirm_rejected_effects:
  assumes "fst (confirmBooking clk uid d ids st) = Inl e"
  shows "bookings (snd (confirmBooking clk uid d ids st)) = bookings st"
    and "filter (\<lambda>l. purgeTs clk < l_lockExpiry l) (locks (snd (confirmBooking clk uid d ids st))) =
         filter (\<lambda>l. purgeTs clk < l_lockExpiry l) (locks st)"
proof -
  have keep: "filter (\<lambda>l. (l_date l = d \<longrightarrow> t < l_lockExpiry l) \<and> t < l_lockExpiry l) ls =
              filter (\<lambda>l. t < l_lockExpiry l) ls" for t :: int and ls :: "lock list"
    by (rule filter_cong) auto
  from confirm_rejected_state [OF assms]
  show "bookings (snd (confirmBooking clk uid d ids st)) = bookings st"
    by (auto simp: clearExpired_fields)
  from confirm_rejected_state [OF assms]
  show "filter (\<lambda>l. purgeTs clk < l_lockExpiry l) (locks (snd (confirmBooking clk uid d ids st))) =
        filter (\<lambda>l. purgeTs clk < l_lockExpiry l) (locks st)"
    by (auto simp: clearExpired_fields keep)
qed

lemma confirm_rejected_before_purge:
  assumes "users st uid = Some u" and "validateBookingPolicy clk st u d ids \<noteq> None"
  shows "\<exists>e. confirmBooking clk uid d ids st = (Inl e, st)"
  using assms by (auto simp: confirmBooking_def Let_def split: option.splits)

lemma confirm_rejected_by_loop:
  assumes "users st uid = Some u"
    and "bookAvailabilityLoop (clearExpiredLocksForDate (purgeTs clk) d st) u d (checkTs clk) ids \<noteq> None"
  shows "\<exists>e. fst (confirmBooking clk uid d ids st) = Inl e"
  using assms by (auto simp: confirmBooking_def Let_def split: option.splits)

lemma bookAvailabilityLoop_booked:
  assumes "find (\<lambda>b. b_date b = d \<and> b_seatId b = sid) (bookings st) \<noteq> None"
  shows "sid \<in> set ids \<Longrightarrow> bookAvailabilityLoop st u d now ids \<noteq> None"
  using assms by (induction ids) (auto split: option.splits)

lemma bookAvailabilityLoop_locked:
  assumes "find (\<lambda>l. l_date l = d \<and> l_seatId l = sid) (locks st) = Some l"
    and "(l_userId l \<noteq> userId u \<and> now < l_lockExpiry l) \<or> l_lockExpiry l \<le> now"
  shows "sid \<in> set ids \<Longrightarrow> bookAvailabilityLoop st u d now ids \<noteq> None"
  using assms by (induction ids) (auto split: option.splits)

lemma bookAvailabilityLoop_LockExpired:
  "bookAvailabilityLoop st u d now ids = Some (LockExpired sid) \<Longrightarrow>
     \<exists>l \<in> set (locks st). l_date l = d \<and> l_seatId l = sid \<and> l_lockExpiry l \<le> now"
proof (induction ids)
  case Nil
  then show ?case by simp
next
  case (Cons a ids)
  show ?case
  proof (cases "bookAvailabilityLoop st u d now ids = Some (LockExpired sid)")
    case True
    then show ?thesis by (rule Cons.IH)
  next
    case False
    with Cons.prems obtain l where "find (\<lambda>l. l_date l = d \<and> l_seatId l = a) (locks st) = Some l"
      "l_lockExpiry l \<le> now" "a = sid"
      by (auto split: option.splits if_splits)
    then show ?thesis by (auto simp: find_Some_iff)
  qed
qed

lemma find_unique_key:
  assumes "distinct (map f xs)" and "x \<in> set xs"
  shows "find (\<lambda>y. f y = f x) xs = Some x"
  using assms by (induction xs) (auto simp: rev_image_eqI)

lemma find_purged_live:
  "find (\<lambda>l. l_date l = d \<and> Q l) (filter (\<lambda>l. l_date l = d \<longrightarrow> t < l_lockExpiry l) ls) =
   find (\<lambda>l. l_date l = d \<and> Q l) (filter (\<lambda>l. t < l_lockExpiry l) ls)"
  by (induction ls) auto

lemma find_the_live_lock:
  assumes "oneLiveLockPerSeat t st" and "l \<in> set (locks st)" and "t < l_lockExpiry l"
  shows "find (\<lambda>x. l_date x = l_date l \<and> l_seatId x = l_seatId l)
           (locks (clearExpiredLocksForDate t (l_date l) st)) = Some l"
proof -
  let ?live = "filter (\<lambda>l. t < l_lockExpiry l) (locks st)"
  have "l \<in> set ?live" using assms(2,3) by simp
  with assms(1) have "find (\<lambda>y. (l_date y, l_seatId y) = (l_date l, l_seatId l)) ?live = Some l"
    unfolding oneLiveLockPerSeat_def by (rule find_unique_key)
  then show ?thesis
    by (simp add: clearExpired_fields find_purged_live)
qed

text \<open>
  Claim C2 says that a rejected booking request creates no booking and removes no lock
  of a seat of the batch. The handler purges the expired locks of the date before it
  looks at the seats, and a request rejected after that point has lost them: the first
  user asks for seats 42 and 41, seat 41 is booked by the second user, and the request
  is rejected, yet her lock on seat 42, which ran out at time 500000, is gone.
\<close>

theorem confirm_rejected_purges_expired_lock:
  "fst (confirmBooking thursdayMorning ''alice1'' monday [42, 41] staleLockState)
     = Inl (AlreadyBooked 41) \<and>
   \<lparr>l_date = monday, l_seatId = 42, l_userId = ''alice1'', l_lockExpiry = 500000\<rparr>
     \<in> set (locks staleLockState) \<and>
   \<lparr>l_date = monday, l_seatId = 42, l_userId = ''alice1'', l_lockExpiry = 500000\<rparr>
     \<notin> set (locks (snd (confirmBooking thursdayMorning ''alice1'' monday [42, 41] staleLockState)))"
  by code_simp

text \<open>
  Claim C2, amended. A booking request is all or nothing. It is rejected, with the
  state untouched, when the policy validation fails; it is rejected when a requested
  seat is already booked for the date; and, the store holding at most one unexpired
  lock for each date and seat and the clock not running backwards, it is rejected when
  a requested seat is locked by another user whose lock is still live. A rejected
  request creates and removes no booking and removes no lock that is unexpired at the
  time of the purge: the state after it is the state before, or the state before
  without the expired locks of the date.
\<close>

theorem confirmBooking_all_or_nothing:
  assumes "users st uid = Some u"
  shows "(validateBookingPolicy clk st u d seatIds \<noteq> None \<longrightarrow>
            (\<exists>e. confirmBooking clk uid d seatIds st = (Inl e, st))) \<and>
         ((\<exists>sid \<in> set seatIds. \<exists>b \<in> set (bookings st). b_date b = d \<and> b_seatId b = sid) \<longrightarrow>
            (\<exists>e. fst (confirmBooking clk uid d seatIds st) = Inl e)) \<and>
         (oneLiveLockPerSeat (purgeTs clk) st \<and> purgeTs clk \<le> checkTs clk \<and>
          (\<exists>sid \<in> set seatIds. \<exists>l \<in> set (locks st). l_date l = d \<and> l_seatId l = sid \<and>
              l_userId l \<noteq> userId u \<and> checkTs clk < l_lockExpiry l) \<longrightarrow>
            (\<exists>e. fst (confirmBooking clk uid d seatIds st) = Inl e)) \<and>
         (\<forall>e. fst (confirmBooking clk uid d seatIds st) = Inl e \<longrightarrow>
            bookings (snd (confirmBooking clk uid d seatIds st)) = bookings st \<and>
            filter (\<lambda>l. purgeTs clk < l_lockExpiry l)
                (locks (snd (confirmBooking clk uid d seatIds st))) =
              filter (\<lambda>l. purgeTs clk < l_lockExpiry l) (locks st) \<and>
            (snd (confirmBooking clk uid d seatIds st) = st \<or>
             snd (confirmBooking clk uid d seatIds st) =
               clearExpiredLocksForDate (purgeTs clk) d st))"
proof -
  let ?st1 = "clearExpiredLocksForDate (purgeTs clk) d st"
  have policy: "validateBookingPolicy clk st u d seatIds \<noteq> None \<longrightarrow>
            (\<exists>e. confirmBooking clk uid d seatIds st = (Inl e, st))"
    using confirm_rejected_before_purge [OF assms] by blast
  have booked: "(\<exists>sid \<in> set seatIds. \<exists>b \<in> set (bookings st). b_date b = d \<and> b_seatId b = sid) \<longrightarrow>
            (\<exists>e. fst (confirmBooking clk uid d seatIds st) = Inl e)"
  proof
    assume "\<exists>sid \<in> set seatIds. \<exists>b \<in> set (bookings st). b_date b = d \<and> b_seatId b = sid"
    then obtain sid where sid: "sid \<in> set seatIds"
      and "find (\<lambda>b. b_date b = d \<and> b_seatId b = sid) (bookings ?st1) \<noteq> None"
      by (auto simp: find_None_iff clearExpired_fields)
    then have "bookAvailabilityLoop ?st1 u d (checkTs clk) seatIds \<noteq> None"
      using bookAvailabilityLoop_booked by blast
    then show "\<exists>e. fst (confirmBooking clk uid d seatIds st) = Inl e"
      using confirm_rejected_by_loop [OF assms] by blast
  qed
  have locked: "oneLiveLockPerSeat (purgeTs clk) st \<and> purgeTs clk \<le> checkTs clk \<and>
          (\<exists>sid \<in> set seatIds. \<exists>l \<in> set (locks st). l_date l = d \<and> l_seatId l = sid \<and>
              l_userId l \<noteq> userId u \<and> checkTs clk < l_lockExpiry l) \<longrightarrow>
            (\<exists>e. fst (confirmBooking clk uid d seatIds st) = Inl e)"
  proof
    assume h: "oneLiveLockPerSeat (purgeTs clk) st \<and> purgeTs clk \<le> checkTs clk \<and>
          (\<exists>sid \<in> set seatIds. \<exists>l \<in> set (locks st). l_date l = d \<and> l_seatId l = sid \<and>
              l_userId l \<noteq> userId u \<and> checkTs clk < l_lockExpiry l)"
    then obtain sid l where sid: "sid \<in> set seatIds" and l: "l \<in> set (locks st)"
      "l_date l = d" "l_seatId l = sid" "l_userId l \<noteq> userId u" "checkTs clk < l_lockExpiry l"
      by blast
    have live: "purgeTs clk < l_lockExpiry l" using h l(5) by simp
    have "find (\<lambda>x. l_date x = d \<and> l_seatId x = sid) (locks ?st1) = Some l"
      using find_the_live_lock [of "purgeTs clk" st l] h l live by simp
    then have "bookAvailabilityLoop ?st1 u d (checkTs clk) seatIds \<noteq> None"
      using bookAvailabilityLoop_locked [of d sid ?st1 l u "checkTs clk" seatIds] l sid by simp
    then show "\<exists>e. fst (confirmBooking clk uid d seatIds st) = Inl e"
      using confirm_rejected_by_loop [OF assms] by blast
  qed
  have effects: "\<forall>e. fst (confirmBooking clk uid d seatIds st) = Inl e \<longrightarrow>
            bookings (snd (confirmBooking clk uid d seatIds st)) = bookings st \<and>
            filter (\<lambda>l. purgeTs clk < l_lockExpiry l)
                (locks (snd (confirmBooking clk uid d seatIds st))) =
              filter (\<lambda>l. purgeTs clk < l_lockExpiry l) (locks st) \<and>
            (snd (confirmBooking clk uid d seatIds st) = st \<or>
             snd (confirmBooking clk uid d seatIds st) =
               clearExpiredLocksForDate (purgeTs clk) d st)"
    using confirm_rejected_effects confirm_rejected_state by blast
  show ?thesis
    using policy booked locked effects by blast
qed

theorem confirmBooking_all_or_nothing_witness:
  "users staleLockState ''alice1'' = Some alice \<and>
   (\<exists>sid \<in> set [42, 41]. \<exists>b \<in> set (bookings staleLockState). b_date b = monday \<and> b_seatId b = sid) \<and>
   fst (confirmBooking thursdayMorning ''alice1'' monday [42, 41] staleLockState)
     = Inl (AlreadyBooked 41) \<and>
   bookings (snd (confirmBooking thursdayMorning ''alice1'' monday [42, 41] staleLockState))
     = bookings staleLockState \<and>
   filter (\<lambda>l. purgeTs thursdayMorning < l_lockExpiry l)
       (locks (snd (confirmBooking thursdayMorning ''alice1'' monday [42, 41] staleLockState))) =
     filter (\<lambda>l. purgeTs thursdayMorning < l_lockExpiry l) (locks staleLockState) \<and>
   users staleLockState ''bob2'' = Some bob \<and>
   oneLiveLockPerSeat (purgeTs thursdayMorning) staleLockState \<and>
   purgeTs thursdayMorning \<le> checkTs thursdayMorning \<and>
   (\<exists>sid \<in> set [44, 43]. \<exists>l \<in> set (locks staleLockState). l_date l = monday \<and> l_seatId l = sid \<and>
       l_userId l \<noteq> userId bob \<and> checkTs thursdayMorning < l_lockExpiry l) \<and>
   (\<exists>e. fst (confirmBooking thursdayMorning ''bob2'' monday [44, 43] staleLockState) = Inl e) \<and>
   bookings (snd (confirmBooking thursdayMorning ''bob2'' monday [44, 43] staleLockState))
     = bookings staleLockState"
proof -
  have ua: "users staleLockState ''alice1'' = Some alice"
    and ub: "users staleLockState ''bob2'' = Some bob"
    by (simp_all add: staleLockState_def bookedState_def officeState_def)
  have hb: "\<exists>sid \<in> set [42, 41]. \<exists>b \<in> set (bookings staleLockState).
              b_date b = monday \<and> b_seatId b = sid"
    by (simp add: staleLockState_def bookedState_def)
  have r: "fst (confirmBooking thursdayMorning ''alice1'' monday [42, 41] staleLockState)
     = Inl (AlreadyBooked 41)"
    by code_simp
  have inv: "oneLiveLockPerSeat (purgeTs thursdayMorning) staleLockState"
    by (simp add: oneLiveLockPerSeat_def staleLockState_def thursdayMorning_def)
  have clk: "purgeTs thursdayMorning \<le> checkTs thursdayMorning"
    by (simp add: thursdayMorning_def)
  have hl: "\<exists>sid \<in> set [44, 43]. \<exists>l \<in> set (locks staleLockState). l_date l = monday \<and>
       l_seatId l = sid \<and> l_userId l \<noteq> userId bob \<and> checkTs thursdayMorning < l_lockExpiry l"
    by (simp add: staleLockState_def thursdayMorning_def bob_def)
  note a = confirmBooking_all_or_nothing [OF ua, of thursdayMorning monday "[42, 41]"]
  note b = confirmBooking_all_or_nothing [OF ub, of thursdayMorning monday "[44, 43]"]
  have ra: "bookings (snd (confirmBooking thursdayMorning ''alice1'' monday [42, 41] staleLockState))
     = bookings staleLockState"
    "filter (\<lambda>l. purgeTs thursdayMorning < l_lockExpiry l)
       (locks (snd (confirmBooking thursdayMorning ''alice1'' monday [42, 41] staleLockState))) =
     filter (\<lambda>l. purgeTs thursdayMorning < l_lockExpiry l) (locks staleLockState)"
    using a r by blast+
  have rb: "\<exists>e. fst (confirmBooking thursdayMorning ''bob2'' monday [44, 43] staleLockState) = Inl e"
    using b inv clk hl by blast
  then have rb2: "bookings (snd (confirmBooking thursdayMorning ''bob2'' monday [44, 43] staleLockState))
     = bookings staleLockState"
    using b by blast
  show ?thesis
    using ua ub hb r inv clk hl ra rb rb2 by blast
qed

text \<open>
  Claim C4 says that a booking request is rejected when a lock for a requested seat
  exists but has expired. The handler purges the expired locks of the date first, so
  the lock is no longer there when the seats are checked: the lock of the first user on
  seat 42 ran out at time 500000, her booking request at time 1000000 is accepted
  without a new lock, and seat 42 is booked.
\<close>

theorem confirm_accepts_after_expired_lock:
  "\<lparr>l_date = monday, l_seatId = 42, l_userId = ''alice1'', l_lockExpiry = 500000\<rparr>
     \<in> set (locks staleLockState) \<and>
   500000 \<le> purgeTs thursdayMorning \<and> 500000 \<le> checkTs thursdayMorning \<and>
   fst (confirmBooking thursdayMorning ''alice1'' monday [42] staleLockState) = Inr [42] \<and>
   bookings (snd (confirmBooking thursdayMorning ''alice1'' monday [42] staleLockState)) =
     [\<lparr>b_date = monday, b_seatId = 41, b_userId = ''bob2'', b_bookedAt = 900000\<rparr>,
      \<lparr>b_date = monday, b_seatId = 42, b_userId = ''alice1'', b_bookedAt = 1000000\<rparr>]"
  by code_simp

text \<open>
  Claim C4, amended. A lock that has expired by the time the booking request purges
  the locks of the date is removed and counts as absent: the response is the one the
  request gets without such locks in the store. The request is rejected, and nothing
  is booked, when a lock found for a requested seat after the purge has expired by the
  time of the availability check; and the error "lock expired" is reported only for a
  seat with a lock that expires after the time of the purge and not after the time of
  the check, so never when the clock stands still during the request.
\<close>

theorem confirmBooking_expired_lock:
  assumes "users st uid = Some u"
  shows "((\<forall>l \<in> set (locks st). gone l \<longrightarrow> l_lockExpiry l \<le> purgeTs clk) \<longrightarrow>
            fst (confirmBooking clk uid d seatIds (withoutLocks gone st)) =
            fst (confirmBooking clk uid d seatIds st)) \<and>
         ((\<exists>sid \<in> set seatIds. \<exists>l.
              find (\<lambda>l. l_date l = d \<and> l_seatId l = sid)
                (locks (clearExpiredLocksForDate (purgeTs clk) d st)) = Some l \<and>
              l_lockExpiry l \<le> checkTs clk) \<longrightarrow>
            (\<exists>e. fst (confirmBooking clk uid d seatIds st) = Inl e) \<and>
            bookings (snd (confirmBooking clk uid d seatIds st)) = bookings st) \<and>
         (\<forall>sid. fst (confirmBooking clk uid d seatIds st) = Inl (LockExpired sid) \<longrightarrow>
            (\<exists>l \<in> set (locks st). l_date l = d \<and> l_seatId l = sid \<and>
               purgeTs clk < l_lockExpiry l \<and> l_lockExpiry l \<le> checkTs clk) \<and>
            purgeTs clk < checkTs clk)"
proof -
  let ?st1 = "clearExpiredLocksForDate (purgeTs clk) d st"
  have absent: "(\<forall>l \<in> set (locks st). gone l \<longrightarrow> l_lockExpiry l \<le> purgeTs clk) \<longrightarrow>
            fst (confirmBooking clk uid d seatIds (withoutLocks gone st)) =
            fst (confirmBooking clk uid d seatIds st)"
    using confirm_response_without_expired by blast
  have rejected: "(\<exists>sid \<in> set seatIds. \<exists>l.
              find (\<lambda>l. l_date l = d \<and> l_seatId l = sid) (locks ?st1) = Some l \<and>
              l_lockExpiry l \<le> checkTs clk) \<longrightarrow>
            (\<exists>e. fst (confirmBooking clk uid d seatIds st) = Inl e) \<and>
            bookings (snd (confirmBooking clk uid d seatIds st)) = bookings st"
  proof
    assume "\<exists>sid \<in> set seatIds. \<exists>l.
              find (\<lambda>l. l_date l = d \<and> l_seatId l = sid) (locks ?st1) = Some l \<and>
              l_lockExpiry l \<le> checkTs clk"
    then obtain sid l where "sid \<in> set seatIds"
      "find (\<lambda>l. l_date l = d \<and> l_seatId l = sid) (locks ?st1) = Some l"
      "l_lockExpiry l \<le> checkTs clk"
      by blast
    then have "bookAvailabilityLoop ?st1 u d (checkTs clk) seatIds \<noteq> None"
      using bookAvailabilityLoop_locked [of d sid ?st1 l u "checkTs clk" seatIds] by simp
    then have "\<exists>e. fst (confirmBooking clk uid d seatIds st) = Inl e"
      using confirm_rejected_by_loop [OF assms] by blast
    then show "(\<exists>e. fst (confirmBooking clk uid d seatIds st) = Inl e) \<and>
            bookings (snd (confirmBooking clk uid d seatIds st)) = bookings st"
      using confirm_rejected_effects(1) by blast
  qed
  have reported: "\<forall>sid. fst (confirmBooking clk uid d seatIds st) = Inl (LockExpired sid) \<longrightarrow>
            (\<exists>l \<in> set (locks st). l_date l = d \<and> l_seatId l = sid \<and>
               purgeTs clk < l_lockExpiry l \<and> l_lockExpiry l \<le> checkTs clk) \<and>
            purgeTs clk < checkTs clk"
  proof (intro allI impI)
    fix sid
    assume r: "fst (confirmBooking clk uid d seatIds st) = Inl (LockExpired sid)"
    have nv: "validateSeatIds st ids \<noteq> Some (LockExpired sid)" for ids
      by (auto simp: validateSeatIds_def split: option.splits)
    have no: "seatOwnershipLoop st u d bd ids \<noteq> Some (LockExpired sid)" for bd ids
      by (induction ids) (auto split: option.splits)
    have np: "validateBookingPolicy clk st u d seatIds \<noteq> Some (LockExpired sid)"
      using no by (auto simp: validateBookingPolicy_def Let_def)
    from r assms nv np have "bookAvailabilityLoop ?st1 u d (checkTs clk) seatIds = Some (LockExpired sid)"
      by (auto simp: confirmBooking_def Let_def split: option.splits if_splits)
    then obtain l where "l \<in> set (locks ?st1)" "l_date l = d" "l_seatId l = sid"
      "l_lockExpiry l \<le> checkTs clk"
      using bookAvailabilityLoop_LockExpired by blast
    then have "l \<in> set (locks st) \<and> l_date l = d \<and> l_seatId l = sid \<and>
               purgeTs clk < l_lockExpiry l \<and> l_lockExpiry l \<le> checkTs clk"
      by (auto simp: clearExpired_fields)
    then show "(\<exists>l \<in> set (locks st). l_date l = d \<and> l_seatId l = sid \<and>
               purgeTs clk < l_lockExpiry l \<and> l_lockExpiry l \<le> checkTs clk) \<and>
            purgeTs clk < checkTs clk"
      by force
  qed
  show ?thesis
    using absent rejected reported by blast
qed

theorem confirmBooking_expired_lock_witness:
  "users staleLockState ''alice1'' = Some alice \<and>
   fst (confirmBooking thursdayMorning ''alice1'' monday [42]
          (withoutLocks (\<lambda>l. l_lockExpiry l \<le> 1000000) staleLockState)) =
     fst (confirmBooking thursdayMorning ''alice1'' monday [42] staleLockState) \<and>
   users raceLockState ''alice1'' = Some alice \<and>
   (\<exists>sid \<in> set [42]. \<exists>l.
       find (\<lambda>l. l_date l = monday \<and> l_seatId l = sid)
         (locks (clearExpiredLocksForDate (purgeTs tickingClock) monday raceLockState)) = Some l \<and>
       l_lockExpiry l \<le> checkTs tickingClock) \<and>
   fst (confirmBooking tickingClock ''alice1'' monday [42] raceLockState) = Inl (LockExpired 42) \<and>
   bookings (snd (confirmBooking tickingClock ''alice1'' monday [42] raceLockState))
     = bookings raceLockState \<and>
   purgeTs tickingClock < checkTs tickingClock"
proof -
  have u1: "users staleLockState ''alice1'' = Some alice"
    by (simp add: staleLockState_def bookedState_def officeState_def)
  have u2: "users raceLockState ''alice1'' = Some alice"
    by (simp add: raceLockState_def bookedState_def officeState_def)
  have h1: "\<forall>l \<in> set (locks staleLockState).
       l_lockExpiry l \<le> 1000000 \<longrightarrow> l_lockExpiry l \<le> purgeTs thursdayMorning"
    by (simp add: thursdayMorning_def)
  have h2: "\<exists>sid \<in> set [42]. \<exists>l.
       find (\<lambda>l. l_date l = monday \<and> l_seatId l = sid)
         (locks (clearExpiredLocksForDate (purgeTs tickingClock) monday raceLockState)) = Some l \<and>
       l_lockExpiry l \<le> checkTs tickingClock"
    by (simp add: clearExpiredLocksForDate_def raceLockState_def tickingClock_def thursdayMorning_def)
  have r: "fst (confirmBooking tickingClock ''alice1'' monday [42] raceLockState) = Inl (LockExpired 42)"
    by code_simp
  note a = confirmBooking_expired_lock [OF u1, of "\<lambda>l. l_lockExpiry l \<le> 1000000" thursdayMorning monday "[42]"]
  note b = confirmBooking_expired_lock [OF u2, of "\<lambda>l. l_lockExpiry l \<le> 1000000" tickingClock monday "[42]"]
  have c1: "fst (confirmBooking thursdayMorning ''alice1'' monday [42]
          (withoutLocks (\<lambda>l. l_lockExpiry l \<le> 1000000) staleLockState)) =
     fst (confirmBooking thursdayMorning ''alice1'' monday [42] staleLockState)"
    using a h1 by blast
  have c2: "bookings (snd (confirmBooking tickingClock ''alice1'' monday [42] raceLockState))
     = bookings raceLockState"
    using b h2 by blast
  have c3: "purgeTs tickingClock < checkTs tickingClock"
    using b r by blast
  show ?thesis
    using u1 u2 h1 h2 r c1 c2 c3 by blast
qed

end
